theory Spec2Isabelle
  imports Main "HOL-Library.Word" "HOL-Library.Sublist"
begin

section \<open>The KBUS message frame (class Message of kbus.py)\<close>

text \<open>
  A Message wraps an \<^verbatim>\<open>array.array('L', ...)\<close> of unsigned 32-bit words. Python 2
  strings are byte strings, so a \<^verbatim>\<open>str\<close> is a \<^typ>\<open>string\<close> here. The fields
  \<^verbatim>\<open>to\<close>, \<^verbatim>\<open>from_\<close> and \<^verbatim>\<open>flags\<close> are taken at the type of the array's items.
\<close>

type_synonym word32 = "32 word"
type_synonym array_L = "word32 list"

text \<open>
  The exceptions the class can raise. The three \<^verbatim>\<open>ValueError\<close>s of the class are kept
  apart by their message:
  \<^item> \<open>ValueError_tuple_len n\<close>: "Tuple arg to Message() must have 6 values, not n";
  \<^item> \<open>ValueError_no_sense\<close>: "Argument ... does not seem to make sense";
  \<^item> \<open>ValueError_item_size\<close>: raised by \<^verbatim>\<open>array.array('L', s)\<close> for a string whose
    length is not a multiple of the item size;
  \<^item> \<open>ValueError_name_min n\<close>: "Message name is n long, minimum is 3".
  \<open>AssertionError\<close> is a failed \<^verbatim>\<open>assert\<close>, \<open>IndexError\<close> an array index out of range,
  \<open>OverflowError\<close> an item that does not fit an unsigned 32-bit word, \<open>TypeError\<close> a
  tuple item of the wrong kind.
\<close>

datatype error =
    ValueError_tuple_len nat
  | ValueError_no_sense
  | ValueError_item_size
  | ValueError_name_min nat
  | AssertionError
  | IndexError
  | OverflowError
  | TypeError

fun is_ValueError :: "error + 'a \<Rightarrow> bool" where
  "is_ValueError (Inl (ValueError_tuple_len n)) = True"
| "is_ValueError (Inl ValueError_no_sense) = True"
| "is_ValueError (Inl ValueError_item_size) = True"
| "is_ValueError (Inl (ValueError_name_min n)) = True"
| "is_ValueError r = False"

definition START_GUARD :: word32 where
  "START_GUARD = 0x7375626B"

definition END_GUARD :: word32 where
  "END_GUARD = 0x6B627573"

subsection \<open>Strings and arrays of words\<close>

text \<open>
  \<^verbatim>\<open>array.array('L', s)\<close> for a string \<open>s\<close> reads four bytes per item in the machine's
  byte order, least significant byte first (the doctest of the class shows
  \<^verbatim>\<open>'$.Fr'\<close> as \<^verbatim>\<open>1917201956\<close>), and raises ValueError when the length of \<open>s\<close>
  is not a multiple of four. \<^verbatim>\<open>tostring()\<close> is its inverse.
\<close>

definition word_of_bytes :: "char \<Rightarrow> char \<Rightarrow> char \<Rightarrow> char \<Rightarrow> word32" where
  "word_of_bytes a b c d =
     of_nat (of_char a + 256 * of_char b + 65536 * of_char c + 16777216 * of_char d)"

definition bytes_of_word :: "word32 \<Rightarrow> string" where
  "bytes_of_word w =
     [char_of (unat w), char_of (unat w div 256),
      char_of (unat w div 65536), char_of (unat w div 16777216)]"

fun words_of :: "string \<Rightarrow> array_L" where
  "words_of (a # b # c # d # s) = word_of_bytes a b c d # words_of s"
| "words_of s = []"

definition array_L_of_string :: "string \<Rightarrow> error + array_L" where
  "array_L_of_string s =
     (if length s mod 4 \<noteq> 0 then Inl ValueError_item_size else Inr (words_of s))"

definition tostring :: "array_L \<Rightarrow> string" where
  "tostring ws = concat (map bytes_of_word ws)"

text \<open>An item appended to the array must fit an unsigned 32-bit word.\<close>

definition array_L_item :: "nat \<Rightarrow> error + word32" where
  "array_L_item n = (if n < 2 ^ 32 then Inr (of_nat n) else Inl OverflowError)"

subsection \<open>Arguments of the constructor\<close>

text \<open>
  The \<^verbatim>\<open>data\<close> argument is \<^verbatim>\<open>None\<close>, a string, an array of words or an integer.
  The first argument is a Message, a tuple or list, a string or an array of words; the
  items of a tuple are integers, strings, arrays or \<^verbatim>\<open>None\<close>.
\<close>

datatype data_arg = NoData | StrData string | ArrayData array_L | IntData word32

datatype pyval = PInt word32 | PStr string | PArr array_L | PNone

fun data_of :: "pyval \<Rightarrow> data_arg" where
  "data_of PNone = NoData"
| "data_of (PStr s) = StrData s"
| "data_of (PArr ws) = ArrayData ws"
| "data_of (PInt i) = IntData i"

record Message =
  array :: array_L
  length_words :: nat

datatype arg = MessageArg Message | SeqArg "pyval list" | StrArg string | ArrayArg array_L

subsection \<open>Message._from_data\<close>

text \<open>The loop \<^verbatim>\<open>while len(name)%4: name += '\0'\<close>.\<close>

function pad_name :: "string \<Rightarrow> string" where
  "pad_name name = (if length name mod 4 \<noteq> 0 then pad_name (name @ [CHR 0x00]) else name)"
  by pat_completeness auto
termination
proof (relation "measure (\<lambda>name. 3 - (length name + 3) mod 4)")
  show "wf (measure (\<lambda>name. 3 - (length name + 3) mod 4))" by simp
next
  fix name :: string
  assume "length name mod 4 \<noteq> 0"
  then have "3 - (Suc (length name) + 3) mod 4 < 3 - (length name + 3) mod 4"
    by presburger
  then show "(name @ [CHR 0x00], name) \<in> measure (\<lambda>name. 3 - (length name + 3) mod 4)"
    by simp
qed

declare pad_name.simps [simp del]

text \<open>
  The data as an array: \<^verbatim>\<open>None\<close> and an array are left as they are, anything else goes
  to \<^verbatim>\<open>array.array('L', data)\<close>, which raises TypeError for an integer.
\<close>

definition data_array_of :: "data_arg \<Rightarrow> error + array_L" where
  "data_array_of data =
     (case data of
        NoData \<Rightarrow> Inr []
      | ArrayData ws \<Rightarrow> Inr ws
      | StrData s \<Rightarrow> array_L_of_string s
      | IntData i \<Rightarrow> Inl TypeError)"

definition from_data :: "string \<Rightarrow> data_arg \<Rightarrow> word32 \<Rightarrow> word32 \<Rightarrow> word32 \<Rightarrow> error + array_L" where
  "from_data name data to' from' flags =
     (let msg = [START_GUARD, 0, to', from', flags] in
      case array_L_item (length name) of
        Inl e \<Rightarrow> Inl e
      | Inr name_len \<Rightarrow>
     (let msg = msg @ [name_len];
          name = pad_name name in
      case data_array_of data of
        Inl e \<Rightarrow> Inl e
      | Inr data_array \<Rightarrow>
     (case (if data_array \<noteq> [] then array_L_item (length data_array) else Inr 0) of
        Inl e \<Rightarrow> Inl e
      | Inr data_len \<Rightarrow>
     (let msg = msg @ [data_len] in
      case array_L_of_string name of
        Inl e \<Rightarrow> Inl e
      | Inr name_array \<Rightarrow>
     (let msg = msg @ name_array;
          msg = (if data_array \<noteq> [] then msg @ data_array else msg);
          msg = msg @ [END_GUARD]
      in Inr msg)))))"

text \<open>
  The same method when the name is an array of words, which only a tuple or list argument
  of the constructor can hand to it: \<^verbatim>\<open>len(name)\<close> is then the number of words, the
  padding loop raises TypeError as soon as it has to append \<^verbatim>\<open>'\0'\<close> to the array, and
  \<^verbatim>\<open>array.array('L', name)\<close> is a copy of the array.
\<close>

definition from_data_array :: "array_L \<Rightarrow> data_arg \<Rightarrow> word32 \<Rightarrow> word32 \<Rightarrow> word32 \<Rightarrow> error + array_L" where
  "from_data_array name data to' from' flags =
     (let msg = [START_GUARD, 0, to', from', flags] in
      case array_L_item (length name) of
        Inl e \<Rightarrow> Inl e
      | Inr name_len \<Rightarrow>
     (let msg = msg @ [name_len] in
      if length name mod 4 \<noteq> 0 then Inl TypeError
      else case data_array_of data of
        Inl e \<Rightarrow> Inl e
      | Inr data_array \<Rightarrow>
     (case (if data_array \<noteq> [] then array_L_item (length data_array) else Inr 0) of
        Inl e \<Rightarrow> Inl e
      | Inr data_len \<Rightarrow>
     (let msg = msg @ [data_len];
          name_array = name;
          msg = msg @ name_array;
          msg = (if data_array \<noteq> [] then msg @ data_array else msg);
          msg = msg @ [END_GUARD]
      in Inr msg))))"

subsection \<open>Message._check\<close>

text \<open>
  The checks run in the order of the source: both guards, then the two length fields are
  read (an array too short for them raises IndexError), then the minimum name length,
  then the total length. Python 2's \<^verbatim>\<open>/\<close> on integers is floor division.
\<close>

definition check :: "array_L \<Rightarrow> error + unit" where
  "check a =
     (if a = [] then Inl IndexError
      else if a ! 0 \<noteq> START_GUARD then Inl AssertionError
      else if last a \<noteq> END_GUARD then Inl AssertionError
      else if length a \<le> 5 then Inl IndexError
      else let name_len_bytes = unat (a ! 5);
               name_len = (name_len_bytes + 3) div 4
      in if length a \<le> 6 then Inl IndexError
      else let data_len = unat (a ! 6)
      in if name_len_bytes < 3 then Inl (ValueError_name_min name_len_bytes)
      else if \<not> 0 \<le> data_len then Inl AssertionError
      else if 8 + name_len + data_len \<noteq> length a then Inl AssertionError
      else Inr ())"

subsection \<open>Message.__init__\<close>

text \<open>
  The branches of the constructor, in the order of the source. A Message is copied. A
  tuple or list must have six items and is handed to \<^verbatim>\<open>_from_data\<close> as
  \<^verbatim>\<open>(arg[-2], data=arg[-1], to=arg[1], from_=arg[2], flags=arg[3])\<close>: an item for to,
  from or flags that is not an integer cannot be appended to the array (TypeError), and a
  name that is an integer or \<^verbatim>\<open>None\<close> has no length (TypeError). A string beginning with
  \<^verbatim>\<open>'$.'\<close> is a name. Anything else that is not empty goes to \<^verbatim>\<open>array.array('L', arg)\<close>,
  and an empty argument is a ValueError.
\<close>

definition init_array :: "arg \<Rightarrow> data_arg \<Rightarrow> word32 \<Rightarrow> word32 \<Rightarrow> word32 \<Rightarrow> error + array_L" where
  "init_array a data to' from' flags =
     (case a of
        MessageArg m \<Rightarrow> Inr (array m)
      | SeqArg xs \<Rightarrow>
          (if length xs \<noteq> 6 then Inl (ValueError_tuple_len (length xs))
           else (case (xs ! 1, xs ! 2, xs ! 3) of
                   (PInt t, PInt f, PInt fl) \<Rightarrow>
                     (case xs ! 4 of
                        PStr n \<Rightarrow> from_data n (data_of (xs ! 5)) t f fl
                      | PArr n \<Rightarrow> from_data_array n (data_of (xs ! 5)) t f fl
                      | _ \<Rightarrow> Inl TypeError)
                 | _ \<Rightarrow> Inl TypeError))
      | StrArg s \<Rightarrow>
          (if prefix ''$.'' s then from_data s data to' from' flags
           else if s \<noteq> [] then array_L_of_string s
           else Inl ValueError_no_sense)
      | ArrayArg ws \<Rightarrow>
          (if ws \<noteq> [] then Inr ws else Inl ValueError_no_sense))"

text \<open>
  The end of the constructor: \<^verbatim>\<open>self._check()\<close>, then
  \<^verbatim>\<open>self.length = len(self.array)\<close>.
\<close>

definition checked :: "array_L \<Rightarrow> error + Message" where
  "checked ws =
     (case check ws of
        Inl e \<Rightarrow> Inl e
      | Inr u \<Rightarrow> Inr \<lparr>array = ws, length_words = length ws\<rparr>)"

definition Message_init :: "arg \<Rightarrow> data_arg \<Rightarrow> word32 \<Rightarrow> word32 \<Rightarrow> word32 \<Rightarrow> error + Message" where
  "Message_init a data to' from' flags =
     (case init_array a data to' from' flags of
        Inl e \<Rightarrow> Inl e
      | Inr ws \<Rightarrow> checked ws)"

subsection \<open>Message.extract and Message.equivalent\<close>

text \<open>Slices clip at the end of the array, as \<^const>\<open>take\<close> and \<^const>\<open>drop\<close> do.\<close>

definition Message_extract :: "Message \<Rightarrow> error + (word32 \<times> word32 \<times> word32 \<times> word32 \<times> string \<times> array_L)" where
  "Message_extract m =
     (let msg = array m in
      if msg = [] then Inl IndexError
      else if msg ! 0 \<noteq> START_GUARD then Inl AssertionError
      else if last msg \<noteq> END_GUARD then Inl AssertionError
      else if length msg \<le> 6 then Inl IndexError
      else let id' = msg ! 1;
               to' = msg ! 2;
               from' = msg ! 3;
               flags = msg ! 4;
               name_len = unat (msg ! 5);
               data_len = unat (msg ! 6);
               name_array_len = (name_len + 3) div 4;
               name_array = take name_array_len (drop 7 msg);
               name = tostring name_array;
               name = take name_len name;
               data_offset = 7 + name_array_len;
               data_array = take data_len (drop data_offset msg)
      in Inr (id', to', from', flags, name, data_array))"

definition equivalent :: "Message \<Rightarrow> Message \<Rightarrow> error + bool" where
  "equivalent self other =
     (if length_words self \<noteq> length_words other then Inr False
      else case Message_extract self of
        Inl e \<Rightarrow> Inl e
      | Inr (id1, to1, from1, flags1, name1, data1) \<Rightarrow>
     (case Message_extract other of
        Inl e \<Rightarrow> Inl e
      | Inr (id2, to2, from2, flags2, name2, data2) \<Rightarrow>
          Inr ((id2, to1, from2, flags1, name1, data1) = (id2, to2, from2, flags2, name2, data2))))"

subsection \<open>The frame in closed form\<close>

text \<open>
  The array that \<^verbatim>\<open>_from_data\<close> builds from a name, the words of the data and the
  three header fields, written in one piece: five header words, the two length words, the
  padded name, the data, the end guard.
\<close>

definition frame :: "string \<Rightarrow> array_L \<Rightarrow> word32 \<Rightarrow> word32 \<Rightarrow> word32 \<Rightarrow> array_L" where
  "frame name ws t f fl =
     [START_GUARD, 0, t, f, fl, of_nat (length name), of_nat (length ws)]
       @ words_of (pad_name name) @ ws @ [END_GUARD]"


section \<open>The bus: binding table, router and queues\<close>

text \<open>
  The binding table, the router and the endpoint queues live in the kernel module, which
  is not part of \<^verbatim>\<open>kbus.py\<close>: the file only calls it through \<^verbatim>\<open>ioctl\<close>, \<^verbatim>\<open>read\<close>
  and \<^verbatim>\<open>write\<close>, and tests it. The definitions of this section are therefore written
  from the spec (sections 3, 4.2 to 4.4 and 6).
\<close>

type_synonym endpoint_id = nat

text \<open>The failures of section 6 of the spec, and the two codec failures a send propagates.\<close>

datatype bus_error =
    InvalidArgument
  | AddressInUse
  | AddressNotAvailable
  | InvalidName
  | InvalidPayload

text \<open>
  Modelled from the spec: a Binding, the tuple (endpoint id, name, is_replier,
  is_guaranteed) of section 3; the kernel's own structure is missing.
\<close>

record Binding =
  bnd_endpoint :: endpoint_id
  bnd_name :: string
  bnd_replier :: bool
  bnd_guaranteed :: bool

text \<open>
  Modelled from the spec: a Message as the bus holds it, (id, to, from, flags, name,
  payload) of section 3; the kernel's own structure is missing.
\<close>

record bus_message =
  msg_id :: nat
  msg_to :: nat
  msg_from :: nat
  msg_flags :: nat
  msg_name :: string
  msg_payload :: string

text \<open>
  Modelled from the spec: the Bus of section 3, owner of the binding table (in insertion
  order), of the message-id counter (the last id assigned, 0 at the start) and of one
  queue for each endpoint; the kernel's device state is missing.
\<close>

record Bus =
  bindings :: "Binding list"
  last_id :: nat
  queues :: "endpoint_id \<Rightarrow> bus_message list"

definition new_bus :: Bus where
  "new_bus = \<lparr>bindings = [], last_id = 0, queues = (\<lambda>ep. [])\<rparr>"

text \<open>
  Modelled from the spec: \<^verbatim>\<open>bind\<close> of section 4.2, the kernel's \<^verbatim>\<open>KBUS_IOC_BIND\<close>. It
  fails InvalidArgument if the name is empty, AddressInUse if a replier is asked for and a
  replier Binding exists for that exact name, and otherwise appends the Binding.
\<close>

definition bind :: "Bus \<Rightarrow> endpoint_id \<Rightarrow> string \<Rightarrow> bool \<Rightarrow> bool \<Rightarrow> (bus_error + unit) \<times> Bus" where
  "bind bus ep nm rep guar =
     (if nm = [] then (Inl InvalidArgument, bus)
      else if rep \<and> (\<exists>b \<in> set (bindings bus). bnd_name b = nm \<and> bnd_replier b)
        then (Inl AddressInUse, bus)
      else (Inr (),
            bus\<lparr>bindings := bindings bus @
              [\<lparr>bnd_endpoint = ep, bnd_name = nm, bnd_replier = rep, bnd_guaranteed = guar\<rparr>]\<rparr>))"

text \<open>
  Modelled from the spec: \<^verbatim>\<open>unbind\<close> of section 4.2, the kernel's \<^verbatim>\<open>KBUS_IOC_UNBIND\<close>.
  It removes the first Binding, in insertion order, that matches all four fields, and
  fails InvalidArgument if there is none.
\<close>

definition unbind :: "Bus \<Rightarrow> endpoint_id \<Rightarrow> string \<Rightarrow> bool \<Rightarrow> bool \<Rightarrow> (bus_error + unit) \<times> Bus" where
  "unbind bus ep nm rep guar =
     (let b = \<lparr>bnd_endpoint = ep, bnd_name = nm, bnd_replier = rep, bnd_guaranteed = guar\<rparr>
      in if b \<in> set (bindings bus)
         then (Inr (), bus\<lparr>bindings := remove1 b (bindings bus)\<rparr>)
         else (Inl InvalidArgument, bus))"

text \<open>
  Modelled from the spec: the Bindings a name matches (section 4.2): every Binding,
  replier or listener, whose name is exactly the name of the message.
\<close>

definition matching :: "Binding list \<Rightarrow> string \<Rightarrow> Binding list" where
  "matching bs nm = filter (\<lambda>b. bnd_name b = nm) bs"

text \<open>
  Modelled from the spec: \<^verbatim>\<open>match_listeners\<close> of section 4.2, the set of the endpoints
  with any Binding whose name is exactly the name of the message.
\<close>

definition match_listeners :: "Binding list \<Rightarrow> string \<Rightarrow> endpoint_id set" where
  "match_listeners bs nm = bnd_endpoint ` set (matching bs nm)"

text \<open>
  Modelled from the spec: the validation of step 1 of section 4.3, with the two failures
  of \<^verbatim>\<open>encode\<close> in section 4.1.
\<close>

definition validate :: "bus_message \<Rightarrow> bus_error + unit" where
  "validate msg =
     (if length (msg_name msg) < 3 \<or> \<not> prefix ''$.'' (msg_name msg) then Inl InvalidName
      else if length (msg_payload msg) mod 4 \<noteq> 0 then Inl InvalidPayload
      else Inr ())"

text \<open>
  Modelled from the spec: \<^verbatim>\<open>route\<close> of section 4.3, the kernel's handling of a write.
  Step 1 validates the message. Step 2 resolves the destination set. Step 3: an empty
  destination set is AddressNotAvailable, with the Bus as it was. Step 4 otherwise: one
  new id, the counter incremented, and a copy of the message with that id and the sender as
  from pushed at the tail of the queue of every destination endpoint.
\<close>

definition route :: "Bus \<Rightarrow> endpoint_id \<Rightarrow> bus_message \<Rightarrow> (bus_error + unit) \<times> Bus" where
  "route bus sender msg =
     (case validate msg of
        Inl e \<Rightarrow> (Inl e, bus)
      | Inr u \<Rightarrow>
          (let dest = match_listeners (bindings bus) (msg_name msg) in
           if dest = {} then (Inl AddressNotAvailable, bus)
           else (let n = Suc (last_id bus);
                     copy = msg\<lparr>msg_id := n, msg_from := sender\<rparr>
                 in (Inr (),
                     bus\<lparr>last_id := n,
                         queues := (\<lambda>ep. if ep \<in> dest then queues bus ep @ [copy]
                                         else queues bus ep)\<rparr>))))"

text \<open>
  Modelled from the spec: the two invariants of the binding table (section 3): no Binding
  has an empty name, and for every name at most one Binding is a replier.
\<close>

definition wf_table :: "Binding list \<Rightarrow> bool" where
  "wf_table bs \<longleftrightarrow>
     (\<forall>b \<in> set bs. bnd_name b \<noteq> [])
     \<and> (\<forall>b \<in> set bs. length (filter (\<lambda>b'. bnd_name b' = bnd_name b \<and> bnd_replier b') bs) \<le> 1)"


section \<open>Bytes and words\<close>

lemma bytes_sum_less:
  fixes a b c d :: nat
  assumes "a < 256" "b < 256" "c < 256" "d < 256"
  shows "a + 256 * b + 65536 * c + 16777216 * d < 4294967296"
  using assms by linarith

lemma unat_of_nat32: "n < 4294967296 \<Longrightarrow> unat (of_nat n :: word32) = n"
  by (subst unat_of_nat) simp

lemma unat_word_of_bytes:
  "unat (word_of_bytes a b c d) =
     of_char a + 256 * of_char b + 65536 * of_char c + 16777216 * of_char d"
proof -
  have "(of_char a + 256 * of_char b + 65536 * of_char c + 16777216 * of_char d :: nat) < 4294967296"
    by (rule bytes_sum_less) simp_all
  then show ?thesis
    unfolding word_of_bytes_def by (rule unat_of_nat32)
qed

lemma char_of_add_mult: "char_of (of_char a + 256 * (k::nat)) = a"
proof -
  have "char_of (of_char a + 256 * k) = char_of ((of_char a + 256 * k) mod 256)"
    by (simp only: char_of_mod_256)
  also have "(of_char a + 256 * k) mod 256 = (of_char a :: nat)"
    by simp
  finally show ?thesis by simp
qed

lemma div_256_add_mult:
  fixes a k :: nat
  assumes "a < 256"
  shows "(a + 256 * k) div 256 = k"
  using assms by simp

lemma bytes_of_word_of_bytes: "bytes_of_word (word_of_bytes a b c d) = [a, b, c, d]"
proof -
  let ?A = "of_char a :: nat" and ?B = "of_char b :: nat"
  and ?C = "of_char c :: nat" and ?D = "of_char d :: nat"
  let ?n = "?A + 256 * ?B + 65536 * ?C + 16777216 * ?D"
  have 0: "?n = ?A + 256 * (?B + 256 * (?C + 256 * (?D + 256 * 0)))" by simp
  have 1: "?n div 256 = ?B + 256 * (?C + 256 * (?D + 256 * 0))"
    by (subst 0) (rule div_256_add_mult, simp)
  have "?n div 65536 = ?n div 256 div 256"
    by (simp add: div_mult2_eq[symmetric])
  also have "\<dots> = ?C + 256 * (?D + 256 * 0)"
    by (subst 1) (rule div_256_add_mult, simp)
  finally have 2: "?n div 65536 = ?C + 256 * (?D + 256 * 0)" .
  have "?n div 16777216 = ?n div 65536 div 256"
    by (simp add: div_mult2_eq[symmetric])
  also have "\<dots> = ?D + 256 * 0"
    by (subst 2) (rule div_256_add_mult, simp)
  finally have 3: "?n div 16777216 = ?D + 256 * 0" .
  have "char_of ?n = a" by (subst 0) (rule char_of_add_mult)
  moreover have "char_of (?n div 256) = b" by (subst 1) (rule char_of_add_mult)
  moreover have "char_of (?n div 65536) = c" by (subst 2) (rule char_of_add_mult)
  moreover have "char_of (?n div 16777216) = d" by (subst 3) (rule char_of_add_mult)
  ultimately show ?thesis
    unfolding bytes_of_word_def unat_word_of_bytes by simp
qed

lemma nat_bytes_recompose:
  fixes n :: nat
  assumes "n < 4294967296"
  shows "n mod 256 + 256 * (n div 256 mod 256) + 65536 * (n div 65536 mod 256)
          + 16777216 * (n div 16777216 mod 256) = n"
proof -
  define q1 q2 q3 where "q1 = n div 256" and "q2 = q1 div 256" and "q3 = q2 div 256"
  have e2: "n div 65536 = q2" unfolding q2_def q1_def by (simp add: div_mult2_eq[symmetric])
  have e3: "n div 16777216 = q3"
    unfolding q3_def q2_def q1_def by (simp add: div_mult2_eq[symmetric])
  have "q3 < 256" unfolding e3[symmetric] using assms by simp
  then have m3: "q3 mod 256 = q3" by simp
  have d0: "n = n mod 256 + 256 * q1" unfolding q1_def by simp
  have d1: "q1 = q1 mod 256 + 256 * q2" unfolding q2_def by simp
  have d2: "q2 = q2 mod 256 + 256 * q3" unfolding q3_def by simp
  have "n mod 256 + 256 * (q1 mod 256) + 65536 * (q2 mod 256) + 16777216 * q3 = n"
    using d0 d1 d2 by linarith
  then show ?thesis
    unfolding e2 e3 m3 q1_def[symmetric] .
qed

lemma word_of_bytes_of_word:
  "word_of_bytes (char_of (unat w)) (char_of (unat w div 256))
     (char_of (unat w div 65536)) (char_of (unat w div 16777216)) = w"
proof -
  have "unat w < 2 ^ 32" using unsigned_less[of w] by simp
  then have "unat w < 4294967296" by simp
  from nat_bytes_recompose[OF this]
  have "of_char (char_of (unat w)) + 256 * of_char (char_of (unat w div 256))
          + 65536 * of_char (char_of (unat w div 65536))
          + 16777216 * of_char (char_of (unat w div 16777216)) = unat w"
    by (simp only: of_char_of)
  then have "word_of_bytes (char_of (unat w)) (char_of (unat w div 256))
     (char_of (unat w div 65536)) (char_of (unat w div 16777216)) = of_nat (unat w)"
    unfolding word_of_bytes_def by (rule arg_cong)
  then show ?thesis by simp
qed

lemma words_of_bytes_of_word: "words_of (bytes_of_word w @ s) = w # words_of s"
  using word_of_bytes_of_word[of w] by (simp add: bytes_of_word_def)

lemma words_of_tostring: "words_of (tostring ws) = ws"
  unfolding tostring_def by (induction ws) (simp_all add: words_of_bytes_of_word)

lemma length_bytes_of_word: "length (bytes_of_word w) = 4"
  by (simp add: bytes_of_word_def)

lemma length_tostring: "length (tostring ws) = 4 * length ws"
  unfolding tostring_def by (induction ws) (simp_all add: length_bytes_of_word)

lemma tostring_words_of: "length s mod 4 = 0 \<Longrightarrow> tostring (words_of s) = s"
proof (induction s rule: words_of.induct)
  case (1 a b c d s)
  then have "length s mod 4 = 0" by simp
  with 1 show ?case by (simp add: tostring_def bytes_of_word_of_bytes)
qed (simp_all add: tostring_def)

lemma length_words_of: "length (words_of s) = length s div 4"
  by (induction s rule: words_of.induct) simp_all

lemma words_of_append:
  "length s mod 4 = 0 \<Longrightarrow> words_of (s @ t) = words_of s @ words_of t"
  by (induction s rule: words_of.induct) simp_all

section \<open>The frame built by \<open>from_data\<close>\<close>

lemma pad_name_eq: "pad_name name = name @ replicate (3 - (length name + 3) mod 4) (CHR 0x00)"
proof (induction name rule: pad_name.induct)
  case (1 name)
  show ?case
  proof (cases "length name mod 4 = 0")
    case True
    then have "(length name + 3) mod 4 = 3" by presburger
    with True show ?thesis by (simp add: pad_name.simps[of name])
  next
    case False
    then have *: "3 - (length name + 3) mod 4 = Suc (3 - (Suc (length name) + 3) mod 4)"
      by presburger
    from False have "pad_name name = pad_name (name @ [CHR 0x00])"
      by (simp add: pad_name.simps[of name])
    also have "\<dots> = (name @ [CHR 0x00]) @ replicate (3 - (length (name @ [CHR 0x00]) + 3) mod 4) (CHR 0x00)"
      using 1 False by simp
    also have "\<dots> = name @ replicate (3 - (length name + 3) mod 4) (CHR 0x00)"
      unfolding * by (simp add: replicate_app_Cons_same)
    finally show ?thesis .
  qed
qed

lemma pad_arith: "(n::nat) + (3 - (n + 3) mod 4) = 4 * ((n + 3) div 4)"
  by presburger

lemma length_pad_name: "length (pad_name name) = 4 * ((length name + 3) div 4)"
proof -
  have "length (pad_name name) = length name + (3 - (length name + 3) mod 4)"
    by (simp only: pad_name_eq length_append length_replicate)
  then show ?thesis by (simp only: pad_arith)
qed

lemma array_L_of_pad_name: "array_L_of_string (pad_name name) = Inr (words_of (pad_name name))"
  by (simp add: array_L_of_string_def length_pad_name)

lemma length_words_of_pad_name: "length (words_of (pad_name name)) = (length name + 3) div 4"
  by (simp add: length_words_of length_pad_name)

lemma from_data_frame:
  assumes "length name < 2 ^ 32" and "data_array_of data = Inr ws" and "length ws < 2 ^ 32"
  shows "from_data name data t f fl = Inr (frame name ws t f fl)"
  using assms
  by (simp add: from_data_def frame_def array_L_item_def array_L_of_pad_name Let_def)

lemma from_data_Inr:
  assumes "from_data name data t f fl = Inr a"
  shows "\<exists>ws. data_array_of data = Inr ws \<and> length name < 2 ^ 32 \<and> length ws < 2 ^ 32
            \<and> a = frame name ws t f fl"
  using assms
  by (auto simp: from_data_def frame_def array_L_item_def array_L_of_pad_name Let_def
      split: sum.splits if_splits)

lemma from_data_item_size:
  assumes "length name < 2 ^ 32" and "length payload mod 4 \<noteq> 0"
  shows "from_data name (StrData payload) t f fl = Inl ValueError_item_size"
  using assms
  by (simp add: from_data_def array_L_item_def data_array_of_def array_L_of_string_def Let_def)

lemma length_frame: "length (frame name ws t f fl) = 8 + (length name + 3) div 4 + length ws"
  by (simp add: frame_def length_words_of_pad_name)

lemma frame_nth:
  "frame name ws t f fl ! 0 = START_GUARD"
  "frame name ws t f fl ! 1 = 0"
  "frame name ws t f fl ! 2 = t"
  "frame name ws t f fl ! 3 = f"
  "frame name ws t f fl ! 4 = fl"
  "frame name ws t f fl ! 5 = of_nat (length name)"
  "frame name ws t f fl ! 6 = of_nat (length ws)"
  by (simp_all add: frame_def)

lemma last_frame: "last (frame name ws t f fl) = END_GUARD"
  by (simp add: frame_def)

lemma unat_len32: "n < 2 ^ 32 \<Longrightarrow> unat (of_nat n :: word32) = n"
  by (rule unat_of_nat32) simp

lemma check_frame:
  assumes "length name < 2 ^ 32" and "length ws < 2 ^ 32"
  shows "check (frame name ws t f fl) =
           (if length name < 3 then Inl (ValueError_name_min (length name)) else Inr ())"
proof -
  have ne: "frame name ws t f fl \<noteq> []" by (simp add: frame_def)
  have len: "\<not> length (frame name ws t f fl) \<le> 5" "\<not> length (frame name ws t f fl) \<le> 6"
    by (simp_all add: length_frame)
  show ?thesis
    unfolding check_def
    by (simp only: ne len frame_nth last_frame length_frame unat_len32[OF assms(1)]
        unat_len32[OF assms(2)] Let_def if_False simp_thms) simp
qed

section \<open>Constructing and checking a Message\<close>

lemma checked_frame:
  assumes "3 \<le> length name" and "length name < 2 ^ 32" and "length ws < 2 ^ 32"
  shows "checked (frame name ws t f fl) =
           Inr \<lparr>array = frame name ws t f fl,
                length_words = 8 + (length name + 3) div 4 + length ws\<rparr>"
  using assms by (simp add: checked_def check_frame length_frame)

lemma checked_Inr: "checked ws = Inr m \<Longrightarrow> array m = ws \<and> length_words m = length ws"
  by (auto simp: checked_def split: sum.splits)

lemma Message_init_name:
  "prefix ''$.'' name \<Longrightarrow>
     Message_init (StrArg name) data t f fl =
       (case from_data name data t f fl of Inl e \<Rightarrow> Inl e | Inr ws \<Rightarrow> checked ws)"
  by (simp add: Message_init_def init_array_def)

lemmas eval_defs = Message_init_def init_array_def from_data_def array_L_item_def
  data_array_of_def array_L_of_string_def pad_name.simps word_of_bytes_def checked_def
  check_def START_GUARD_def END_GUARD_def Let_def

lemma doctest_msg1:
  "Message_init (StrArg ''$.Fred'') (StrData ''1234'') 0 0 0 =
     Inr \<lparr>array = [1937072747, 0, 0, 0, 0, 6, 1, 1917201956, 25701, 875770417, 1801614707],
          length_words = 11\<rparr>"
  by (simp add: eval_defs)

lemma bytes_of_START_GUARD: "bytes_of_word START_GUARD = ''kbus''"
proof -
  have w: "word_of_bytes (CHR ''k'') (CHR ''b'') (CHR ''u'') (CHR ''s'') = START_GUARD"
    by (simp add: word_of_bytes_def START_GUARD_def)
  show ?thesis unfolding w[symmetric] by (rule bytes_of_word_of_bytes)
qed


section \<open>Encoding from a name, decoding from bytes\<close>

lemma frame_name_array:
  "take ((length name + 3) div 4) (drop 7 (frame name ws t f fl)) = words_of (pad_name name)"
proof -
  have "drop 7 (frame name ws t f fl) = words_of (pad_name name) @ ws @ [END_GUARD]"
    by (simp add: frame_def)
  then show ?thesis by (simp add: length_words_of_pad_name)
qed

lemma frame_data_array:
  "take (length ws) (drop (7 + (length name + 3) div 4) (frame name ws t f fl)) = ws"
proof -
  have "drop (7 + (length name + 3) div 4) (frame name ws t f fl) =
      drop ((length name + 3) div 4) (drop 7 (frame name ws t f fl))"
    by (simp add: add.commute)
  also have "drop 7 (frame name ws t f fl) = words_of (pad_name name) @ ws @ [END_GUARD]"
    by (simp add: frame_def)
  finally show ?thesis by (simp add: length_words_of_pad_name)
qed

lemma take_name_pad: "take (length name) (tostring (words_of (pad_name name))) = name"
proof -
  have "tostring (words_of (pad_name name)) = pad_name name"
    by (rule tostring_words_of) (simp add: length_pad_name)
  then show ?thesis by (simp add: pad_name_eq)
qed

lemma extract_frame:
  assumes "length name < 2 ^ 32" and "length ws < 2 ^ 32"
  shows "Message_extract \<lparr>array = frame name ws t f fl, length_words = n\<rparr> =
           Inr (0, t, f, fl, name, ws)"
proof -
  have ne: "frame name ws t f fl \<noteq> []" by (simp add: frame_def)
  have len: "\<not> length (frame name ws t f fl) \<le> 6" by (simp add: length_frame)
  show ?thesis
    unfolding Message_extract_def
    by (simp only: Message.simps ne len frame_nth last_frame unat_len32[OF assms(1)]
        unat_len32[OF assms(2)] frame_name_array frame_data_array take_name_pad
        Let_def if_False simp_thms)
qed

lemma tostring_guarded:
  assumes "ws \<noteq> []" and "ws ! 0 = START_GUARD"
  shows "\<not> prefix ''$.'' (tostring ws) \<and> tostring ws \<noteq> []"
proof -
  from assms obtain ws' where "ws = START_GUARD # ws'" by (cases ws) auto
  then have "tostring ws = ''kbus'' @ tostring ws'"
    by (simp add: tostring_def bytes_of_START_GUARD)
  then show ?thesis by simp
qed

lemma array_L_of_tostring: "array_L_of_string (tostring ws) = Inr ws"
  by (simp add: array_L_of_string_def length_tostring words_of_tostring)

lemma Message_init_tostring:
  assumes "ws \<noteq> []" and "ws ! 0 = START_GUARD"
  shows "Message_init (StrArg (tostring ws)) data t f fl = checked ws"
  using tostring_guarded[OF assms]
  by (simp add: Message_init_def init_array_def array_L_of_tostring)

lemma Message_init_encode:
  assumes "prefix ''$.'' name" and "length name < 2 ^ 32" and "length payload < 2 ^ 32"
  shows "Message_init (StrArg name) (StrData payload) t f fl =
     (if length payload mod 4 \<noteq> 0 then Inl ValueError_item_size
      else if length name < 3 then Inl (ValueError_name_min (length name))
      else Inr \<lparr>array = frame name (words_of payload) t f fl,
                length_words = 8 + (length name + 3) div 4 + length payload div 4\<rparr>)"
proof (cases "length payload mod 4 = 0")
  case False
  then show ?thesis
    using assms by (simp add: Message_init_name from_data_item_size)
next
  case True
  then have d: "data_array_of (StrData payload) = Inr (words_of payload)"
    by (simp add: data_array_of_def array_L_of_string_def)
  have l: "length (words_of payload) < 2 ^ 32"
    using assms(3) by (simp add: length_words_of)
  have fd: "from_data name (StrData payload) t f fl = Inr (frame name (words_of payload) t f fl)"
    by (rule from_data_frame[OF assms(2) d l])
  show ?thesis
    using True assms(1)
    by (simp add: Message_init_name fd checked_def check_frame[OF assms(2) l]
        length_frame length_words_of)
qed

lemma short_name_no_prefix:
  assumes "length name < 3" and "\<not> prefix ''$.'' name"
  shows "is_ValueError (Message_init (StrArg name) data t f fl)"
proof (cases "name = []")
  case True
  then show ?thesis by (simp add: Message_init_def init_array_def)
next
  case False
  with assms(1) have "length name mod 4 \<noteq> 0" by (cases name) auto
  with False assms(2) show ?thesis
    by (simp add: Message_init_def init_array_def array_L_of_string_def)
qed

section \<open>The wire frame\<close>

lemma replicate_2: "replicate 2 c = [c, c]"
  by (simp add: numeral_2_eq_2)

text \<open>
  Claim C6. A name beginning with \<^verbatim>\<open>'$.'\<close>, of at least 3 and fewer than
  \<open>2 ^ 32\<close> bytes, with data of fewer than \<open>2 ^ 32\<close> words, is encoded, and the
  Message is the frame written out here: start guard, id 0, to, from, flags, the name length
  in bytes, the payload length in words, the words of the name padded with zero bytes to a
  word boundary, the payload, the end guard. And every Message built from a name beginning
  with \<^verbatim>\<open>'$.'\<close> starts with the start guard and ends with the end guard; its length in
  32-bit words is 8 + ceil(name length in bytes / 4) + payload length in words; the seven
  header words are followed by the name, zero-padded to a word boundary, then by the
  payload, then by the end guard.
\<close>

theorem C6_frame_layout:
  assumes "prefix ''$.'' name" and "data_array_of data = Inr payload"
  shows "(3 \<le> length name \<and> length name < 2 ^ 32 \<and> length payload < 2 ^ 32 \<longrightarrow>
            Message_init (StrArg name) data t f fl =
              Inr \<lparr>array =
                     [START_GUARD, 0, t, f, fl, of_nat (length name), of_nat (length payload)]
                       @ words_of (name @ replicate (3 - (length name + 3) mod 4) (CHR 0x00))
                       @ payload @ [END_GUARD],
                   length_words = 8 + (length name + 3) div 4 + length payload\<rparr>)
       \<and> (Message_init (StrArg name) data t f fl = Inr m \<longrightarrow>
            array m ! 0 = START_GUARD \<and> last (array m) = END_GUARD
          \<and> length (array m) = 8 + (length name + 3) div 4 + length payload
          \<and> length_words m = length (array m)
          \<and> take 7 (array m) =
              [START_GUARD, 0, t, f, fl, of_nat (length name), of_nat (length payload)]
          \<and> tostring (take ((length name + 3) div 4) (drop 7 (array m))) =
              name @ replicate (3 - (length name + 3) mod 4) (CHR 0x00)
          \<and> drop (7 + (length name + 3) div 4) (array m) = payload @ [END_GUARD])"
proof -
  have part1: "Message_init (StrArg name) data t f fl =
              Inr \<lparr>array =
                     [START_GUARD, 0, t, f, fl, of_nat (length name), of_nat (length payload)]
                       @ words_of (name @ replicate (3 - (length name + 3) mod 4) (CHR 0x00))
                       @ payload @ [END_GUARD],
                   length_words = 8 + (length name + 3) div 4 + length payload\<rparr>"
    if c: "3 \<le> length name \<and> length name < 2 ^ 32 \<and> length payload < 2 ^ 32"
  proof -
  from c have fd: "from_data name data t f fl = Inr (frame name payload t f fl)"
    using from_data_frame[OF _ assms(2)] by simp
  from c have "checked (frame name payload t f fl) =
      Inr \<lparr>array = frame name payload t f fl,
           length_words = 8 + (length name + 3) div 4 + length payload\<rparr>"
    using checked_frame by simp
  with fd assms(1) have "Message_init (StrArg name) data t f fl =
      Inr \<lparr>array = frame name payload t f fl,
           length_words = 8 + (length name + 3) div 4 + length payload\<rparr>"
    by (simp add: Message_init_name)
  then show "Message_init (StrArg name) data t f fl =
              Inr \<lparr>array =
                     [START_GUARD, 0, t, f, fl, of_nat (length name), of_nat (length payload)]
                       @ words_of (name @ replicate (3 - (length name + 3) mod 4) (CHR 0x00))
                       @ payload @ [END_GUARD],
                   length_words = 8 + (length name + 3) div 4 + length payload\<rparr>"
    by (simp only: frame_def pad_name_eq)
  qed
  have part2: "array m ! 0 = START_GUARD \<and> last (array m) = END_GUARD
          \<and> length (array m) = 8 + (length name + 3) div 4 + length payload
          \<and> length_words m = length (array m)
          \<and> take 7 (array m) =
              [START_GUARD, 0, t, f, fl, of_nat (length name), of_nat (length payload)]
          \<and> tostring (take ((length name + 3) div 4) (drop 7 (array m))) =
              name @ replicate (3 - (length name + 3) mod 4) (CHR 0x00)
          \<and> drop (7 + (length name + 3) div 4) (array m) = payload @ [END_GUARD]"
    if b: "Message_init (StrArg name) data t f fl = Inr m"
  proof -
  from assms(1) b obtain a where a: "from_data name data t f fl = Inr a" and c: "checked a = Inr m"
    by (auto simp: Message_init_name split: sum.splits)
  from from_data_Inr[OF a] assms(2) have fr: "a = frame name payload t f fl" by auto
  from checked_Inr[OF c] fr have m: "array m = frame name payload t f fl"
    and l: "length_words m = length (array m)" by simp_all
  have pad: "tostring (words_of (pad_name name)) = pad_name name"
    by (rule tostring_words_of) (simp add: length_pad_name)
  have t7: "take 7 (frame name payload t f fl) =
      [START_GUARD, 0, t, f, fl, of_nat (length name), of_nat (length payload)]"
    by (simp add: frame_def)
  have dd: "drop (7 + (length name + 3) div 4) (frame name payload t f fl) = payload @ [END_GUARD]"
  proof -
    have "drop (7 + (length name + 3) div 4) (frame name payload t f fl) =
        drop ((length name + 3) div 4) (drop 7 (frame name payload t f fl))"
      by (simp add: add.commute)
    also have "drop 7 (frame name payload t f fl) = words_of (pad_name name) @ payload @ [END_GUARD]"
      by (simp add: frame_def)
    finally show ?thesis by (simp add: length_words_of_pad_name)
  qed
  show ?thesis
    unfolding m l
    by (simp only: frame_nth last_frame length_frame t7 frame_name_array dd pad
        pad_name_eq[symmetric] simp_thms)
  qed
  from part1 part2 show ?thesis by blast
qed

text \<open>
  The class's own doctest, \<^verbatim>\<open>Message('$.Fred', data='1234')\<close>: the constructor builds
  the eleven words the docstring shows; the six bytes of the name take two words, the
  second padded with two zero bytes; the payload word and the end guard follow.
\<close>

theorem C6_frame_layout_witness:
  "Message_init (StrArg ''$.Fred'') (StrData ''1234'') 0 0 0 =
     Inr \<lparr>array = [1937072747, 0, 0, 0, 0, 6, 1, 1917201956, 25701, 875770417, 1801614707],
          length_words = 11\<rparr>
   \<and> tostring [1917201956, 25701] = ''$.Fred'' @ [CHR 0x00, CHR 0x00]
   \<and> drop 9 [1937072747, 0, 0, 0, 0, 6, 1, 1917201956, 25701, 875770417, 1801614707 :: word32]
       = [875770417, END_GUARD]"
proof -
  let ?M = "\<lparr>array = [1937072747, 0, 0, 0, 0, 6, 1, 1917201956, 25701, 875770417, 1801614707],
          length_words = 11\<rparr> :: Message"
  have h1: "prefix ''$.'' ''$.Fred''" by simp
  have h3: "data_array_of (StrData ''1234'') = Inr [875770417]"
    by (simp add: data_array_of_def array_L_of_string_def word_of_bytes_def)
  note t = C6_frame_layout[OF h1 h3, of 0 0 0 ?M]
  from t have e: "Message_init (StrArg ''$.Fred'') (StrData ''1234'') 0 0 0 = Inr ?M"
    by (simp add: replicate_2 word_of_bytes_def START_GUARD_def END_GUARD_def)
  with t have "tostring (take ((length ''$.Fred'' + 3) div 4) (drop 7 (array ?M))) =
              ''$.Fred'' @ replicate (3 - (length ''$.Fred'' + 3) mod 4) (CHR 0x00)
          \<and> drop (7 + (length ''$.Fred'' + 3) div 4) (array ?M) = [875770417] @ [END_GUARD]"
    by blast
  then have "tostring [1917201956, 25701] = ''$.Fred'' @ [CHR 0x00, CHR 0x00]
      \<and> drop 9 [1937072747, 0, 0, 0, 0, 6, 1, 1917201956, 25701, 875770417, 1801614707 :: word32]
       = [875770417, END_GUARD]"
    by (simp add: replicate_2)
  with e show ?thesis by blast
qed


section \<open>Errors of encoding\<close>

text \<open>
  Claim C7, as the spec states it, says that encoding fails with InvalidName whenever the
  name does not begin with \<^verbatim>\<open>'$.'\<close>. The constructor does not reject such a name: a
  non-empty string without the prefix is read as an encoded frame. The four-byte string
  \<^verbatim>\<open>'Fred'\<close> fails the guard assertion (AssertionError, not ValueError), and the 44 bytes
  of the frame of the class's doctest, given as the name, are accepted, whatever data is
  passed along.
\<close>

theorem C7_counterexample:
  "\<not> prefix ''$.'' ''Fred''
   \<and> Message_init (StrArg ''Fred'') (StrData ''1234'') 0 0 0 = Inl AssertionError
   \<and> \<not> prefix ''$.''
        (''kbus'' @ replicate 16 (CHR 0x00)
          @ [CHR 0x06, CHR 0x00, CHR 0x00, CHR 0x00, CHR 0x01, CHR 0x00, CHR 0x00, CHR 0x00]
          @ ''$.Fred'' @ [CHR 0x00, CHR 0x00] @ ''1234'' @ ''subk'')
   \<and> Message_init
        (StrArg (''kbus'' @ replicate 16 (CHR 0x00)
          @ [CHR 0x06, CHR 0x00, CHR 0x00, CHR 0x00, CHR 0x01, CHR 0x00, CHR 0x00, CHR 0x00]
          @ ''$.Fred'' @ [CHR 0x00, CHR 0x00] @ ''1234'' @ ''subk''))
        (StrData ''1234'') 0 0 0 =
       Inr \<lparr>array = [1937072747, 0, 0, 0, 0, 6, 1, 1917201956, 25701, 875770417, 1801614707],
            length_words = 11\<rparr>"
proof -
  have r: "replicate 16 (CHR 0x00) = [CHR 0x00, CHR 0x00, CHR 0x00, CHR 0x00,
      CHR 0x00, CHR 0x00, CHR 0x00, CHR 0x00, CHR 0x00, CHR 0x00, CHR 0x00, CHR 0x00,
      CHR 0x00, CHR 0x00, CHR 0x00, CHR 0x00]"
    by (simp add: numeral_eq_Suc)
  show ?thesis unfolding r by (simp add: eval_defs)
qed

text \<open>
  Claim C7, amended. For a name and a payload string shorter than \<open>2 ^ 32\<close> bytes:
  a name shorter than 3 bytes always fails with a ValueError; a name beginning with
  \<^verbatim>\<open>'$.'\<close> fails with the ValueError "Message name is n long, minimum is 3"
  (InvalidName) when it is shorter than 3 bytes and the payload is a whole number of words,
  fails with the ValueError of the array constructor (InvalidPayload) when the payload
  length is not a multiple of 4, and succeeds with the frame of name and payload when the
  name has at least 3 bytes and the payload length is a multiple of 4.
\<close>

theorem C7_encode_errors:
  assumes "length name < 2 ^ 32" and "length payload < 2 ^ 32"
  shows "(length name < 3 \<longrightarrow>
            is_ValueError (Message_init (StrArg name) (StrData payload) t f fl))
       \<and> (prefix ''$.'' name \<and> length name < 3 \<and> length payload mod 4 = 0 \<longrightarrow>
            Message_init (StrArg name) (StrData payload) t f fl =
              Inl (ValueError_name_min (length name)))
       \<and> (prefix ''$.'' name \<and> length payload mod 4 \<noteq> 0 \<longrightarrow>
            Message_init (StrArg name) (StrData payload) t f fl = Inl ValueError_item_size)
       \<and> (prefix ''$.'' name \<and> 3 \<le> length name \<and> length payload mod 4 = 0 \<longrightarrow>
            Message_init (StrArg name) (StrData payload) t f fl =
              Inr \<lparr>array = frame name (words_of payload) t f fl,
                   length_words = 8 + (length name + 3) div 4 + length payload div 4\<rparr>)"
proof (cases "prefix ''$.'' name")
  case True
  note enc = Message_init_encode[OF True assms, of t f fl]
  show ?thesis unfolding enc using True by simp
next
  case False
  then show ?thesis using short_name_no_prefix[OF _ False] by simp
qed

text \<open>
  The three cases at concrete inputs: the two-byte name \<^verbatim>\<open>'$.'\<close>, a three-byte payload,
  and the doctest's \<^verbatim>\<open>Message('$.Fred', data='1234')\<close>.
\<close>

theorem C7_encode_errors_witness:
  "is_ValueError (Message_init (StrArg ''$.'') (StrData ''1234'') 0 0 0)
   \<and> Message_init (StrArg ''$.'') (StrData ''1234'') 0 0 0 = Inl (ValueError_name_min 2)
   \<and> Message_init (StrArg ''$.Fred'') (StrData ''123'') 0 0 0 = Inl ValueError_item_size
   \<and> Message_init (StrArg ''$.Fred'') (StrData ''1234'') 0 0 0 =
        Inr \<lparr>array = frame ''$.Fred'' (words_of ''1234'') 0 0 0, length_words = 11\<rparr>"
  using C7_encode_errors[of "''$.''" "''1234''" 0 0 0]
    C7_encode_errors[of "''$.Fred''" "''123''" 0 0 0]
    C7_encode_errors[of "''$.Fred''" "''1234''" 0 0 0]
  by simp


section \<open>Round trip\<close>

text \<open>
  Claim C2. For every name of at least 3 bytes beginning with \<^verbatim>\<open>'$.'\<close>, every payload
  whose length is a multiple of 4 (both shorter than \<open>2 ^ 32\<close> bytes, as every string
  of a machine with 32-bit words is) and every to, from and flags: the Message is built,
  the Message built from the bytes of its array (\<^verbatim>\<open>Message(msg.array.tostring())\<close>) is
  built as well, and \<^verbatim>\<open>extract()\<close> of the latter returns id 0, the same to, from and
  flags, the same name and the words of the payload, whose bytes are the payload.
\<close>

theorem C2_roundtrip:
  assumes "prefix ''$.'' name" and "3 \<le> length name" and "length name < 2 ^ 32"
    and "length payload mod 4 = 0" and "length payload < 2 ^ 32"
  shows "\<exists>m m'. Message_init (StrArg name) (StrData payload) t f fl = Inr m
           \<and> Message_init (StrArg (tostring (array m))) NoData 0 0 0 = Inr m'
           \<and> Message_extract m' = Inr (0, t, f, fl, name, words_of payload)
           \<and> tostring (words_of payload) = payload"
proof -
  let ?ws = "words_of payload"
  let ?F = "frame name ?ws t f fl"
  let ?m = "\<lparr>array = ?F, length_words = 8 + (length name + 3) div 4 + length payload div 4\<rparr>"
  have l: "length ?ws < 2 ^ 32" using assms(5) by (simp add: length_words_of)
  have enc: "Message_init (StrArg name) (StrData payload) t f fl = Inr ?m"
    using assms(2,4) by (simp add: Message_init_encode[OF assms(1,3,5)])
  have ne: "?F \<noteq> []" by (simp add: frame_def)
  have dec: "Message_init (StrArg (tostring (array ?m))) NoData 0 0 0 = Inr ?m"
    using assms(2)
    by (simp add: Message_init_tostring[OF ne frame_nth(1)] checked_frame[OF assms(2,3) l]
        length_words_of)
  have ex: "Message_extract ?m = Inr (0, t, f, fl, name, ?ws)"
    by (rule extract_frame[OF assms(3) l])
  have pl: "tostring ?ws = payload" by (rule tostring_words_of[OF assms(4)])
  from enc dec ex pl show ?thesis by blast
qed

text \<open>The round trip of the doctest's message.\<close>

theorem C2_roundtrip_witness:
  "\<exists>m m'. Message_init (StrArg ''$.Fred'') (StrData ''1234'') 0 0 0 = Inr m
           \<and> Message_init (StrArg (tostring (array m))) NoData 0 0 0 = Inr m'
           \<and> Message_extract m' = Inr (0, 0, 0, 0, ''$.Fred'', words_of ''1234'')
           \<and> tostring (words_of ''1234'') = ''1234''"
  by (rule C2_roundtrip) simp_all


section \<open>Errors of decoding\<close>

lemma Message_init_frame_bytes:
  assumes "\<not> prefix ''$.'' buf" and "buf \<noteq> []" and "length buf mod 4 = 0"
  shows "Message_init (StrArg buf) data t f fl = checked (words_of buf)"
  using assms by (simp add: Message_init_def init_array_def array_L_of_string_def)

lemma words_of_nonempty:
  assumes "buf \<noteq> []" and "length buf mod 4 = 0"
  shows "words_of buf \<noteq> []"
proof -
  from assms have "4 \<le> length buf" by (cases buf) (auto simp: mod_Suc split: if_splits)
  then have "0 < length (words_of buf)" by (simp add: length_words_of)
  then show ?thesis by simp
qed

lemma check_guards:
  assumes "ws \<noteq> []" and "ws ! 0 \<noteq> START_GUARD \<or> last ws \<noteq> END_GUARD"
  shows "check ws = Inl AssertionError"
  using assms by (auto simp: check_def)

lemma check_name_min:
  assumes "ws ! 0 = START_GUARD" and "last ws = END_GUARD" and "7 \<le> length ws"
    and "unat (ws ! 5) < 3"
  shows "check ws = Inl (ValueError_name_min (unat (ws ! 5)))"
proof -
  from assms(3) have "ws \<noteq> []" "\<not> length ws \<le> 5" "\<not> length ws \<le> 6" by auto
  with assms show ?thesis by (simp add: check_def Let_def)
qed

lemma check_length:
  assumes "ws ! 0 = START_GUARD" and "last ws = END_GUARD" and "7 \<le> length ws"
    and "3 \<le> unat (ws ! 5)"
    and "8 + (unat (ws ! 5) + 3) div 4 + unat (ws ! 6) \<noteq> length ws"
  shows "check ws = Inl AssertionError"
proof -
  from assms(3) have "ws \<noteq> []" "\<not> length ws \<le> 5" "\<not> length ws \<le> 6" by auto
  with assms show ?thesis by (simp add: check_def Let_def)
qed

lemma replicate_24_NUL:
  "replicate 24 (CHR 0x00) = [CHR 0x00, CHR 0x00, CHR 0x00, CHR 0x00,
      CHR 0x00, CHR 0x00, CHR 0x00, CHR 0x00, CHR 0x00, CHR 0x00, CHR 0x00, CHR 0x00,
      CHR 0x00, CHR 0x00, CHR 0x00, CHR 0x00, CHR 0x00, CHR 0x00, CHR 0x00, CHR 0x00,
      CHR 0x00, CHR 0x00, CHR 0x00, CHR 0x00]"
  by (simp add: numeral_eq_Suc)

lemma replicate_16_NUL:
  "replicate 16 (CHR 0x00) = [CHR 0x00, CHR 0x00, CHR 0x00, CHR 0x00,
      CHR 0x00, CHR 0x00, CHR 0x00, CHR 0x00, CHR 0x00, CHR 0x00, CHR 0x00, CHR 0x00,
      CHR 0x00, CHR 0x00, CHR 0x00, CHR 0x00]"
  by (simp add: numeral_eq_Suc)

text \<open>
  Claim C8, as the spec states it, fails in two ways. A buffer that begins with the bytes
  \<^verbatim>\<open>'$.'\<close> is taken for a name, not for a frame: \<^verbatim>\<open>Message('$.ab')\<close> is built,
  although its first word is not the start guard. And the minimum name length is checked
  before the total length: nine words with both guards, a declared name length of 0 and a
  declared payload length of 0 do not account for the word count, yet the error is the
  ValueError of the name length, not the AssertionError of the length check.
\<close>

theorem C8_counterexample:
  "words_of ''$.ab'' ! 0 \<noteq> START_GUARD
   \<and> Message_init (StrArg ''$.ab'') NoData 0 0 0 =
        Inr \<lparr>array = [1937072747, 0, 0, 0, 0, 4, 0, 1650535972, 1801614707],
             length_words = 9\<rparr>
   \<and> 8 + (unat (words_of (''kbus'' @ replicate 24 (CHR 0x00) @ ''subk'' @ ''subk'') ! 5) + 3) div 4
        + unat (words_of (''kbus'' @ replicate 24 (CHR 0x00) @ ''subk'' @ ''subk'') ! 6)
       \<noteq> length (words_of (''kbus'' @ replicate 24 (CHR 0x00) @ ''subk'' @ ''subk''))
   \<and> Message_init (StrArg (''kbus'' @ replicate 24 (CHR 0x00) @ ''subk'' @ ''subk''))
        NoData 0 0 0 = Inl (ValueError_name_min 0)"
  unfolding replicate_24_NUL by (simp add: eval_defs)

text \<open>
  Claim C8, amended. For every non-empty buffer whose length is a multiple of 4 and which
  does not begin with \<^verbatim>\<open>'$.'\<close>, with \<open>words_of buf\<close> its 32-bit words: decoding
  fails with AssertionError (CorruptMessage) if the first word differs from the start guard
  or the last word from the end guard; when both guards match and there are at least 7
  words, it fails with the ValueError "Message name is n long, minimum is 3" (InvalidName)
  if the declared name length is below 3, and with AssertionError (CorruptMessage) if the
  declared name length is at least 3 and 8 + ceil(declared name length / 4) + declared
  payload length differs from the word count.
\<close>

theorem C8_decode_errors:
  assumes "\<not> prefix ''$.'' buf" and "buf \<noteq> []" and "length buf mod 4 = 0"
  shows "(words_of buf ! 0 \<noteq> START_GUARD \<or> last (words_of buf) \<noteq> END_GUARD \<longrightarrow>
            Message_init (StrArg buf) data t f fl = Inl AssertionError)
       \<and> (words_of buf ! 0 = START_GUARD \<and> last (words_of buf) = END_GUARD
            \<and> 7 \<le> length (words_of buf) \<and> unat (words_of buf ! 5) < 3 \<longrightarrow>
            Message_init (StrArg buf) data t f fl =
              Inl (ValueError_name_min (unat (words_of buf ! 5))))
       \<and> (words_of buf ! 0 = START_GUARD \<and> last (words_of buf) = END_GUARD
            \<and> 7 \<le> length (words_of buf) \<and> 3 \<le> unat (words_of buf ! 5)
            \<and> 8 + (unat (words_of buf ! 5) + 3) div 4 + unat (words_of buf ! 6)
                 \<noteq> length (words_of buf) \<longrightarrow>
            Message_init (StrArg buf) data t f fl = Inl AssertionError)"
proof -
  note init = Message_init_frame_bytes[OF assms, of data t f fl]
  note ne = words_of_nonempty[OF assms(2,3)]
  show ?thesis
    unfolding init checked_def
    using check_guards[OF ne] check_name_min[of "words_of buf"] check_length[of "words_of buf"]
    by auto
qed

text \<open>
  One buffer for each case: \<^verbatim>\<open>'Fred'\<close> has no start guard; eight words with both guards
  declare a name of length 0; eight words with both guards declare a name of 6 bytes and a
  payload of one word, which would take eleven words.
\<close>

theorem C8_decode_errors_witness:
  "Message_init (StrArg ''Fred'') NoData 0 0 0 = Inl AssertionError
   \<and> Message_init (StrArg (''kbus'' @ replicate 24 (CHR 0x00) @ ''subk'')) NoData 0 0 0 =
        Inl (ValueError_name_min 0)
   \<and> Message_init
        (StrArg (''kbus'' @ replicate 16 (CHR 0x00)
          @ [CHR 0x06, CHR 0x00, CHR 0x00, CHR 0x00, CHR 0x01, CHR 0x00, CHR 0x00, CHR 0x00]
          @ ''subk''))
        NoData 0 0 0 = Inl AssertionError"
  using C8_decode_errors[of "''Fred''" NoData 0 0 0]
    C8_decode_errors[of "''kbus'' @ replicate 24 (CHR 0x00) @ ''subk''" NoData 0 0 0]
    C8_decode_errors[of "''kbus'' @ replicate 16 (CHR 0x00)
          @ [CHR 0x06, CHR 0x00, CHR 0x00, CHR 0x00, CHR 0x01, CHR 0x00, CHR 0x00, CHR 0x00]
          @ ''subk''" NoData 0 0 0]
  unfolding replicate_24_NUL replicate_16_NUL
  by (simp add: word_of_bytes_def START_GUARD_def END_GUARD_def)


section \<open>Equivalent messages\<close>

lemma Message_init_checked:
  assumes "Message_init x data t f fl = Inr m"
  shows "checked (array m) = Inr m"
proof -
  from assms obtain ws where c: "checked ws = Inr m"
    by (auto simp: Message_init_def split: sum.splits)
  with checked_Inr[OF c] show ?thesis by simp
qed

lemma check_Inr:
  assumes "check ws = Inr u"
  shows "ws \<noteq> [] \<and> ws ! 0 = START_GUARD \<and> last ws = END_GUARD \<and> 8 \<le> length ws"
  using assms by (auto simp: check_def Let_def split: if_splits)

lemma check_update:
  assumes "check ws = Inr u"
  shows "check (ws[1 := i, 3 := fr]) = Inr u"
proof -
  from check_Inr[OF assms] have len: "8 \<le> length ws" and ne: "ws \<noteq> []" by simp_all
  let ?ws = "ws[1 := i, 3 := fr]"
  have l: "length ?ws = length ws" by simp
  have n0: "?ws ! 0 = ws ! 0" and n5: "?ws ! 5 = ws ! 5" and n6: "?ws ! 6 = ws ! 6"
    by simp_all
  have "last ?ws = ?ws ! (length ws - 1)"
    using ne by (simp add: last_conv_nth)
  also have "\<dots> = ws ! (length ws - 1)"
    using len by simp
  also have "\<dots> = last ws"
    using ne by (simp add: last_conv_nth)
  finally have la: "last ?ws = last ws" .
  have e: "?ws = [] \<longleftrightarrow> ws = []" by simp
  show ?thesis
    using assms unfolding check_def l n0 n5 n6 la e .
qed

lemma extract_checked:
  assumes "check (array m) = Inr u"
  shows "Message_extract m =
     Inr (array m ! 1, array m ! 2, array m ! 3, array m ! 4,
          take (unat (array m ! 5))
            (tostring (take ((unat (array m ! 5) + 3) div 4) (drop 7 (array m)))),
          take (unat (array m ! 6)) (drop (7 + (unat (array m ! 5) + 3) div 4) (array m)))"
proof -
  from check_Inr[OF assms] have "array m \<noteq> []" "array m ! 0 = START_GUARD"
    "last (array m) = END_GUARD" "\<not> length (array m) \<le> 6" by auto
  then show ?thesis by (simp add: Message_extract_def Let_def)
qed

lemma equivalent_extract:
  assumes "Message_extract a = Inr (ida, toa, froma, flagsa, namea, dataa)"
    and "Message_extract b = Inr (idb, tob, fromb, flagsb, nameb, datab)"
  shows "equivalent a b =
     Inr (length_words a = length_words b \<and> toa = tob \<and> flagsa = flagsb
          \<and> namea = nameb \<and> dataa = datab)"
  using assms by (simp add: equivalent_def)

lemma equivalent_update:
  assumes "checked ws = Inr m"
  shows "checked (ws[1 := i, 3 := fr]) = Inr \<lparr>array = ws[1 := i, 3 := fr], length_words = length ws\<rparr>
       \<and> equivalent m \<lparr>array = ws[1 := i, 3 := fr], length_words = length ws\<rparr> = Inr True"
proof -
  let ?ws = "ws[1 := i, 3 := fr]"
  let ?m = "\<lparr>array = ?ws, length_words = length ws\<rparr>"
  from assms obtain u where c: "check ws = Inr u"
    by (auto simp: checked_def split: sum.splits)
  from checked_Inr[OF assms] have m: "array m = ws" "length_words m = length ws" by simp_all
  have c': "check ?ws = Inr u" by (rule check_update[OF c])
  then have 1: "checked ?ws = Inr ?m" by (simp add: checked_def)
  from c m have cm: "check (array m) = Inr u" by simp
  from c' have cm': "check (array ?m) = Inr u" by simp
  have d: "drop 7 ?ws = drop 7 ws"
    "drop (7 + (unat (ws ! 5) + 3) div 4) ?ws = drop (7 + (unat (ws ! 5) + 3) div 4) ws"
    by simp_all
  from check_Inr[OF c] have len: "8 \<le> length ws" by simp
  have n: "?ws ! 2 = ws ! 2" "?ws ! 4 = ws ! 4" "?ws ! 5 = ws ! 5" "?ws ! 6 = ws ! 6"
    by simp_all
  have 2: "equivalent m ?m = Inr True"
    unfolding equivalent_def extract_checked[OF cm] extract_checked[OF cm']
    by (simp add: m d n)
  from 1 2 show ?thesis by simp
qed

lemma frame_doctest:
  "frame ''$.Fred'' [875770417] 0 fr 0 =
     [1937072747, 0, 0, fr, 0, 6, 1, 1917201956, 25701, 875770417, 1801614707]"
  by (simp add: frame_def pad_name.simps word_of_bytes_def START_GUARD_def END_GUARD_def)

lemma extract_doctest:
  "Message_extract
     \<lparr>array = [1937072747, 0, 0, fr, 0, 6, 1, 1917201956, 25701, 875770417, 1801614707],
      length_words = 11\<rparr> = Inr (0, 0, fr, 0, ''$.Fred'', [875770417])"
  using extract_frame[of "''$.Fred''" "[875770417]" 0 fr 0 11]
  by (simp add: frame_doctest)

text \<open>
  Claim C9. For two Messages \<open>a\<close> and \<open>b\<close> whose parts \<^verbatim>\<open>extract()\<close> returns,
  \<^verbatim>\<open>a.equivalent(b)\<close> is true if and only if they have the same length and the same to,
  flags, name and data, whatever their ids and froms. And for every Message \<open>m\<close> the
  constructor has built, the frame read back once the bus has filled in an id \<open>i\<close>
  and a from \<open>fr\<close> (words 1 and 3 of the array) is built into a Message by
  \<^verbatim>\<open>Message(data)\<close>, and \<open>m\<close> is equivalent to it. Every Message the constructor
  has built has parts that \<^verbatim>\<open>extract()\<close> returns.
\<close>

theorem C9_equivalent:
  assumes "Message_extract a = Inr (ida, toa, froma, flagsa, namea, dataa)"
    and "Message_extract b = Inr (idb, tob, fromb, flagsb, nameb, datab)"
    and "Message_init x data t f fl = Inr m"
  shows "equivalent a b =
           Inr (length_words a = length_words b \<and> toa = tob \<and> flagsa = flagsb
                \<and> namea = nameb \<and> dataa = datab)
       \<and> Message_init (StrArg (tostring ((array m)[1 := i, 3 := fr]))) NoData 0 0 0 =
           Inr \<lparr>array = (array m)[1 := i, 3 := fr], length_words = length_words m\<rparr>
       \<and> equivalent m \<lparr>array = (array m)[1 := i, 3 := fr], length_words = length_words m\<rparr> =
           Inr True
       \<and> Message_extract m =
           Inr (array m ! 1, array m ! 2, array m ! 3, array m ! 4,
                take (unat (array m ! 5))
                  (tostring (take ((unat (array m ! 5) + 3) div 4) (drop 7 (array m)))),
                take (unat (array m ! 6))
                  (drop (7 + (unat (array m ! 5) + 3) div 4) (array m)))"
proof -
  let ?ws = "(array m)[1 := i, 3 := fr]"
  note c = Message_init_checked[OF assms(3)]
  from checked_Inr[OF c] have l: "length_words m = length (array m)" by simp
  from c obtain u where u: "check (array m) = Inr u"
    by (auto simp: checked_def split: sum.splits)
  from check_Inr[OF u] have "?ws \<noteq> []" "?ws ! 0 = START_GUARD" by simp_all
  then have "Message_init (StrArg (tostring ?ws)) NoData 0 0 0 = checked ?ws"
    by (rule Message_init_tostring)
  with equivalent_update[OF c, of i fr] equivalent_extract[OF assms(1,2)] l
  have "equivalent a b =
           Inr (length_words a = length_words b \<and> toa = tob \<and> flagsa = flagsb
                \<and> namea = nameb \<and> dataa = datab)
       \<and> Message_init (StrArg (tostring ((array m)[1 := i, 3 := fr]))) NoData 0 0 0 =
           Inr \<lparr>array = (array m)[1 := i, 3 := fr], length_words = length_words m\<rparr>
       \<and> equivalent m \<lparr>array = (array m)[1 := i, 3 := fr], length_words = length_words m\<rparr> =
           Inr True"
    by simp
  with extract_checked[OF u] show ?thesis by blast
qed

text \<open>
  The doctest's message against the same message sent from endpoint 7, and against its
  frame with id 5 and from 7 filled in.
\<close>

theorem C9_equivalent_witness:
  "equivalent
     \<lparr>array = [1937072747, 0, 0, 0, 0, 6, 1, 1917201956, 25701, 875770417, 1801614707],
      length_words = 11\<rparr>
     \<lparr>array = [1937072747, 0, 0, 7, 0, 6, 1, 1917201956, 25701, 875770417, 1801614707],
      length_words = 11\<rparr> = Inr True
   \<and> Message_init
        (StrArg (tostring
          [1937072747, 5, 0, 7, 0, 6, 1, 1917201956, 25701, 875770417, 1801614707]))
        NoData 0 0 0 =
       Inr \<lparr>array = [1937072747, 5, 0, 7, 0, 6, 1, 1917201956, 25701, 875770417, 1801614707],
            length_words = 11\<rparr>
   \<and> equivalent
        \<lparr>array = [1937072747, 0, 0, 0, 0, 6, 1, 1917201956, 25701, 875770417, 1801614707],
         length_words = 11\<rparr>
        \<lparr>array = [1937072747, 5, 0, 7, 0, 6, 1, 1917201956, 25701, 875770417, 1801614707],
         length_words = 11\<rparr> = Inr True"
  using C9_equivalent[OF extract_doctest[of 0] extract_doctest[of 7] doctest_msg1, of 5 7]
  by simp


section \<open>The dispatch of the constructor\<close>

lemma Message_init_array: "a \<noteq> [] \<Longrightarrow> Message_init (ArrayArg a) data t f fl = checked a"
  by (simp add: Message_init_def init_array_def)

lemma Message_init_valid_frame:
  assumes "check a = Inr ()"
  shows "Message_init (ArrayArg a) data t f fl = Inr \<lparr>array = a, length_words = length a\<rparr>
       \<and> Message_init (StrArg (tostring a)) data t f fl =
           Inr \<lparr>array = a, length_words = length a\<rparr>"
proof -
  from check_Inr[OF assms] have ne: "a \<noteq> []" and g: "a ! 0 = START_GUARD" by simp_all
  have c: "checked a = Inr \<lparr>array = a, length_words = length a\<rparr>"
    using assms by (simp add: checked_def)
  from Message_init_array[OF ne] Message_init_tostring[OF ne g] c show ?thesis by simp
qed

lemma Message_init_name_extract:
  assumes "prefix ''$.'' s" and "3 \<le> length s" and "length s < 2 ^ 32"
    and "data_array_of data = Inr payload" and "length payload < 2 ^ 32"
  shows "\<exists>m. Message_init (StrArg s) data t f fl = Inr m
           \<and> Message_extract m = Inr (0, t, f, fl, s, payload)"
proof -
  have fd: "from_data s data t f fl = Inr (frame s payload t f fl)"
    by (rule from_data_frame[OF assms(3,4,5)])
  have "Message_init (StrArg s) data t f fl =
      Inr \<lparr>array = frame s payload t f fl,
           length_words = 8 + (length s + 3) div 4 + length payload\<rparr>"
    using assms(1) by (simp add: Message_init_name fd checked_frame[OF assms(2,3,5)])
  with extract_frame[OF assms(3,5)] show ?thesis by blast
qed

lemma Message_init_seq_len:
  "length xs \<noteq> 6 \<Longrightarrow>
     Message_init (SeqArg xs) data t f fl = Inl (ValueError_tuple_len (length xs))"
  by (simp add: Message_init_def init_array_def)

lemma Message_init_seq_tuple:
  "Message_init (SeqArg [x, PInt t', PInt f', PInt fl', PStr n, d]) data t f fl =
     (case from_data n (data_of d) t' f' fl' of Inl e \<Rightarrow> Inl e | Inr ws \<Rightarrow> checked ws)"
  by (simp add: Message_init_def init_array_def)

text \<open>
  Claim C10, as stated, says that every non-empty sequence argument other than a string
  beginning with \<^verbatim>\<open>'$.'\<close> is read as an already-encoded frame. A list or tuple is a
  sequence, and the constructor takes it in an earlier branch as the tuple of
  \<^verbatim>\<open>extract()\<close>: the list of the eleven words of the doctest's frame is refused with
  "Tuple arg to Message() must have 6 values, not 11", although the same words as an array
  are accepted; and a list of six items is not read as a frame either, but as
  (id, to, from, flags, name, data), from which the frame is built.
\<close>

theorem C10_counterexample:
  "Message_init
     (SeqArg [PInt 1937072747, PInt 0, PInt 0, PInt 0, PInt 0, PInt 6, PInt 1,
              PInt 1917201956, PInt 25701, PInt 875770417, PInt 1801614707])
     NoData 0 0 0 = Inl (ValueError_tuple_len 11)
   \<and> Message_init
       (ArrayArg [1937072747, 0, 0, 0, 0, 6, 1, 1917201956, 25701, 875770417, 1801614707])
       NoData 0 0 0 =
      Inr \<lparr>array = [1937072747, 0, 0, 0, 0, 6, 1, 1917201956, 25701, 875770417, 1801614707],
           length_words = 11\<rparr>
   \<and> Message_init
       (SeqArg [PInt 5, PInt 0, PInt 0, PInt 0, PStr ''$.Fred'', PArr [875770417]])
       NoData 0 0 0 =
      Inr \<lparr>array = [1937072747, 0, 0, 0, 0, 6, 1, 1917201956, 25701, 875770417, 1801614707],
           length_words = 11\<rparr>"
  by (simp add: eval_defs)

text \<open>
  Claim C10, amended. The constructor dispatches on the shape of its first argument.
  A Message is copied and checked. A tuple or list is never read as a frame: with other
  than 6 items it is refused with a ValueError, with 6 items it is the tuple of
  \<^verbatim>\<open>extract()\<close>, whose fifth item is the name and whose second to fourth and sixth items
  replace the to, from, flags and data arguments. A string is a message name, handed to
  \<^verbatim>\<open>_from_data\<close> with the data, to, from and flags arguments, exactly when it begins
  with \<^verbatim>\<open>'$.'\<close>: the Message built then has that string as its name. Every other
  non-empty string, and every non-empty array of words, is taken as an already-encoded
  frame and only goes through \<^verbatim>\<open>_check\<close>: the other arguments are ignored, no name is
  looked at, and every array that passes \<^verbatim>\<open>_check\<close> is accepted as it is, as an array
  and as its bytes. An empty string or array is refused with a ValueError.
\<close>

theorem C10_dispatch:
  "(prefix ''$.'' s \<longrightarrow>
      Message_init (StrArg s) data t f fl =
        (case from_data s data t f fl of Inl e \<Rightarrow> Inl e | Inr ws \<Rightarrow> checked ws))
   \<and> (prefix ''$.'' s \<and> 3 \<le> length s \<and> length s < 2 ^ 32
        \<and> data_array_of data = Inr payload \<and> length payload < 2 ^ 32 \<longrightarrow>
      (\<exists>m. Message_init (StrArg s) data t f fl = Inr m
           \<and> Message_extract m = Inr (0, t, f, fl, s, payload)))
   \<and> (\<not> prefix ''$.'' s \<and> s \<noteq> [] \<longrightarrow>
      Message_init (StrArg s) data t f fl =
        (if length s mod 4 \<noteq> 0 then Inl ValueError_item_size else checked (words_of s)))
   \<and> (a \<noteq> [] \<longrightarrow> Message_init (ArrayArg a) data t f fl = checked a)
   \<and> (check a = Inr () \<longrightarrow>
      Message_init (ArrayArg a) data t f fl = Inr \<lparr>array = a, length_words = length a\<rparr>
      \<and> Message_init (StrArg (tostring a)) data t f fl =
          Inr \<lparr>array = a, length_words = length a\<rparr>)
   \<and> (length xs \<noteq> 6 \<longrightarrow>
      Message_init (SeqArg xs) data t f fl = Inl (ValueError_tuple_len (length xs)))
   \<and> Message_init (SeqArg [x, PInt t', PInt f', PInt fl', PStr n, d]) data t f fl =
        (case from_data n (data_of d) t' f' fl' of Inl e \<Rightarrow> Inl e | Inr ws \<Rightarrow> checked ws)
   \<and> Message_init (MessageArg m') data t f fl = checked (array m')
   \<and> Message_init (StrArg []) data t f fl = Inl ValueError_no_sense
   \<and> Message_init (ArrayArg []) data t f fl = Inl ValueError_no_sense"
proof -
  have 1: "prefix ''$.'' s \<longrightarrow>
      Message_init (StrArg s) data t f fl =
        (case from_data s data t f fl of Inl e \<Rightarrow> Inl e | Inr ws \<Rightarrow> checked ws)"
    by (simp add: Message_init_name)
  have 2: "prefix ''$.'' s \<and> 3 \<le> length s \<and> length s < 2 ^ 32
        \<and> data_array_of data = Inr payload \<and> length payload < 2 ^ 32 \<longrightarrow>
      (\<exists>m. Message_init (StrArg s) data t f fl = Inr m
           \<and> Message_extract m = Inr (0, t, f, fl, s, payload))"
    using Message_init_name_extract by blast
  have 3: "\<not> prefix ''$.'' s \<and> s \<noteq> [] \<longrightarrow>
      Message_init (StrArg s) data t f fl =
        (if length s mod 4 \<noteq> 0 then Inl ValueError_item_size else checked (words_of s))"
    by (simp add: Message_init_def init_array_def array_L_of_string_def)
  have 4: "a \<noteq> [] \<longrightarrow> Message_init (ArrayArg a) data t f fl = checked a"
    by (simp add: Message_init_array)
  have 5: "check a = Inr () \<longrightarrow>
      Message_init (ArrayArg a) data t f fl = Inr \<lparr>array = a, length_words = length a\<rparr>
      \<and> Message_init (StrArg (tostring a)) data t f fl =
          Inr \<lparr>array = a, length_words = length a\<rparr>"
    using Message_init_valid_frame by blast
  have 6: "length xs \<noteq> 6 \<longrightarrow>
      Message_init (SeqArg xs) data t f fl = Inl (ValueError_tuple_len (length xs))"
    by (simp add: Message_init_seq_len)
  have 8: "Message_init (MessageArg m') data t f fl = checked (array m')"
    by (simp add: Message_init_def init_array_def)
  have 9: "Message_init (StrArg []) data t f fl = Inl ValueError_no_sense"
    "Message_init (ArrayArg []) data t f fl = Inl ValueError_no_sense"
    by (simp_all add: Message_init_def init_array_def)
  from 1 2 3 4 5 6 Message_init_seq_tuple 8 9 show ?thesis by blast
qed

text \<open>
  \<^verbatim>\<open>Message('Fred', '1234', 1, 2, 3)\<close> is a failed guard assertion;
  \<^verbatim>\<open>Message('$.Fred', '1234')\<close> is a Message named \<^verbatim>\<open>'$.Fred'\<close>; the list of the
  eleven words of its frame is refused; the bytes of its frame are accepted, whatever the
  other arguments.
\<close>

theorem C10_dispatch_witness:
  "Message_init (StrArg ''Fred'') (StrData ''1234'') 1 2 3 = Inl AssertionError
   \<and> (\<exists>m. Message_init (StrArg ''$.Fred'') (StrData ''1234'') 0 0 0 = Inr m
          \<and> Message_extract m = Inr (0, 0, 0, 0, ''$.Fred'', [875770417]))
   \<and> Message_init
       (SeqArg [PInt 1937072747, PInt 0, PInt 0, PInt 0, PInt 0, PInt 6, PInt 1,
                PInt 1917201956, PInt 25701, PInt 875770417, PInt 1801614707])
       NoData 0 0 0 = Inl (ValueError_tuple_len 11)
   \<and> Message_init
       (StrArg (tostring
         [1937072747, 0, 0, 0, 0, 6, 1, 1917201956, 25701, 875770417, 1801614707]))
       (StrData ''1234'') 1 2 3 =
      Inr \<lparr>array = [1937072747, 0, 0, 0, 0, 6, 1, 1917201956, 25701, 875770417, 1801614707],
           length_words = 11\<rparr>"
proof -
  let ?F = "[1937072747, 0, 0, 0, 0, 6, 1, 1917201956, 25701, 875770417, 1801614707] :: array_L"
  let ?xs = "[PInt 1937072747, PInt 0, PInt 0, PInt 0, PInt 0, PInt 6, PInt 1,
                PInt 1917201956, PInt 25701, PInt 875770417, PInt 1801614707]"
  have c: "checked (words_of ''Fred'') = Inl AssertionError"
    by (simp add: checked_def check_def word_of_bytes_def START_GUARD_def)
  have "\<not> prefix ''$.'' ''Fred'' \<and> ''Fred'' \<noteq> []" by simp
  with C10_dispatch[where s = "''Fred''" and data = "StrData ''1234''" and t = 1 and f = 2
      and fl = 3 and xs = "[]" and a = "[]"]
  have "Message_init (StrArg ''Fred'') (StrData ''1234'') 1 2 3 =
      (if length ''Fred'' mod 4 \<noteq> 0 then Inl ValueError_item_size
       else checked (words_of ''Fred''))"
    by blast
  with c have 1: "Message_init (StrArg ''Fred'') (StrData ''1234'') 1 2 3 = Inl AssertionError"
    by simp
  have "prefix ''$.'' ''$.Fred'' \<and> 3 \<le> length ''$.Fred'' \<and> length ''$.Fred'' < 2 ^ 32
      \<and> data_array_of (StrData ''1234'') = Inr [875770417]
      \<and> length [875770417 :: word32] < 2 ^ 32"
    by (simp add: data_array_of_def array_L_of_string_def word_of_bytes_def)
  with C10_dispatch[where s = "''$.Fred''" and data = "StrData ''1234''" and t = 0 and f = 0
      and fl = 0 and payload = "[875770417]" and xs = "[]" and a = "[]"]
  have 2: "\<exists>m. Message_init (StrArg ''$.Fred'') (StrData ''1234'') 0 0 0 = Inr m
          \<and> Message_extract m = Inr (0, 0, 0, 0, ''$.Fred'', [875770417])"
    by blast
  have "length ?xs \<noteq> 6" by simp
  with C10_dispatch[where xs = ?xs and data = NoData and t = 0 and f = 0 and fl = 0
      and s = "[]" and a = "[]"]
  have "Message_init (SeqArg ?xs) NoData 0 0 0 = Inl (ValueError_tuple_len (length ?xs))"
    by blast
  then have 3: "Message_init (SeqArg ?xs) NoData 0 0 0 = Inl (ValueError_tuple_len 11)"
    by simp
  have "check ?F = Inr ()"
    by (simp add: check_def START_GUARD_def END_GUARD_def)
  with C10_dispatch[where a = ?F and data = "StrData ''1234''" and t = 1 and f = 2 and fl = 3
      and s = "[]" and xs = "[]"]
  have "Message_init (StrArg (tostring ?F)) (StrData ''1234'') 1 2 3 =
      Inr \<lparr>array = ?F, length_words = length ?F\<rparr>"
    by blast
  then have 4: "Message_init (StrArg (tostring ?F)) (StrData ''1234'') 1 2 3 =
      Inr \<lparr>array = ?F, length_words = 11\<rparr>"
    by simp
  from 1 2 3 4 show ?thesis by blast
qed


section \<open>Sending to a name nobody has bound\<close>

text \<open>
  Claim C4. For every Bus state, sending a valid message whose name no Binding matches
  fails with AddressNotAvailable and leaves the Bus as it was: the id counter is not
  advanced, no queue is modified, and any send that follows behaves as if the failed send
  had not happened (in particular it is given the id the failed send would have received).
\<close>

theorem C4_no_listener:
  assumes "validate msg = Inr ()" and "matching (bindings bus) (msg_name msg) = []"
  shows "route bus sender msg = (Inl AddressNotAvailable, bus)
       \<and> last_id (snd (route bus sender msg)) = last_id bus
       \<and> queues (snd (route bus sender msg)) = queues bus
       \<and> route (snd (route bus sender msg)) sender' msg' = route bus sender' msg'"
  using assms by (simp add: route_def match_listeners_def)

text \<open>
  Scenario 2 of the spec, \<^verbatim>\<open>test_readwrite_kbus0\<close> of \<^verbatim>\<open>kbus.py\<close>: an endpoint that has
  bound \<^verbatim>\<open>'$.B'\<close> and \<^verbatim>\<open>'$.C'\<close> sends to \<^verbatim>\<open>'$.D'\<close>.
\<close>

theorem C4_no_listener_witness:
  "validate \<lparr>msg_id = 0, msg_to = 0, msg_from = 0, msg_flags = 0, msg_name = ''$.D'',
              msg_payload = ''fred''\<rparr> = Inr ()
   \<and> route \<lparr>bindings = [\<lparr>bnd_endpoint = 1, bnd_name = ''$.B'', bnd_replier = True,
                            bnd_guaranteed = False\<rparr>,
                           \<lparr>bnd_endpoint = 1, bnd_name = ''$.C'', bnd_replier = True,
                            bnd_guaranteed = False\<rparr>],
              last_id = 2, queues = (\<lambda>ep. [])\<rparr> 1
         \<lparr>msg_id = 0, msg_to = 0, msg_from = 0, msg_flags = 0, msg_name = ''$.D'',
          msg_payload = ''fred''\<rparr> =
       (Inl AddressNotAvailable,
        \<lparr>bindings = [\<lparr>bnd_endpoint = 1, bnd_name = ''$.B'', bnd_replier = True,
                      bnd_guaranteed = False\<rparr>,
                     \<lparr>bnd_endpoint = 1, bnd_name = ''$.C'', bnd_replier = True,
                      bnd_guaranteed = False\<rparr>],
         last_id = 2, queues = (\<lambda>ep. [])\<rparr>)"
proof -
  let ?msg = "\<lparr>msg_id = 0, msg_to = 0, msg_from = 0, msg_flags = 0, msg_name = ''$.D'',
              msg_payload = ''fred''\<rparr>"
  let ?bus = "\<lparr>bindings = [\<lparr>bnd_endpoint = 1, bnd_name = ''$.B'', bnd_replier = True,
                            bnd_guaranteed = False\<rparr>,
                           \<lparr>bnd_endpoint = 1, bnd_name = ''$.C'', bnd_replier = True,
                            bnd_guaranteed = False\<rparr>],
              last_id = 2, queues = (\<lambda>ep. [])\<rparr> :: Bus"
  have v: "validate ?msg = Inr ()" by (simp add: validate_def)
  have m: "matching (bindings ?bus) (msg_name ?msg) = []" by (simp add: matching_def)
  from C4_no_listener[OF v m, of 1] v show ?thesis by simp
qed


section \<open>One replier for each name\<close>

lemma wf_table_Nil: "wf_table []"
  by (simp add: wf_table_def)

lemma wf_table_bind:
  assumes "wf_table (bindings bus)"
  shows "wf_table (bindings (snd (bind bus ep nm rep guar)))"
proof (cases "nm = [] \<or> (rep \<and> (\<exists>b \<in> set (bindings bus). bnd_name b = nm \<and> bnd_replier b))")
  case True
  then show ?thesis using assms by (auto simp: bind_def)
next
  case False
  let ?b = "\<lparr>bnd_endpoint = ep, bnd_name = nm, bnd_replier = rep, bnd_guaranteed = guar\<rparr>"
  from False have nm: "nm \<noteq> []"
    and norep: "rep \<Longrightarrow> filter (\<lambda>b'. bnd_name b' = nm \<and> bnd_replier b') (bindings bus) = []"
    by (auto simp: filter_empty_conv)
  from False have eq: "bindings (snd (bind bus ep nm rep guar)) = bindings bus @ [?b]"
    by (auto simp: bind_def)
  show ?thesis
    unfolding eq wf_table_def
  proof (intro conjI ballI)
    fix b assume "b \<in> set (bindings bus @ [?b])"
    then show "bnd_name b \<noteq> []"
      using assms nm by (auto simp: wf_table_def)
  next
    fix b assume b: "b \<in> set (bindings bus @ [?b])"
    show "length (filter (\<lambda>b'. bnd_name b' = bnd_name b \<and> bnd_replier b') (bindings bus @ [?b])) \<le> 1"
    proof (cases "bnd_name b = nm \<and> rep")
      case True
      then show ?thesis using norep by simp
    next
      case False
      then have "filter (\<lambda>b'. bnd_name b' = bnd_name b \<and> bnd_replier b') (bindings bus @ [?b])
          = filter (\<lambda>b'. bnd_name b' = bnd_name b \<and> bnd_replier b') (bindings bus)"
        by auto
      moreover have "length (filter (\<lambda>b'. bnd_name b' = bnd_name b \<and> bnd_replier b') (bindings bus)) \<le> 1"
      proof (cases "b \<in> set (bindings bus)")
        case True
        then show ?thesis using assms by (simp add: wf_table_def)
      next
        case False
        with b have "b = ?b" by simp
        with \<open>\<not> (bnd_name b = nm \<and> rep)\<close> have nr: "\<not> rep" by simp
        show ?thesis
        proof (cases "\<exists>c \<in> set (bindings bus). bnd_name c = nm \<and> bnd_replier c")
          case True
          then obtain c where "c \<in> set (bindings bus)" "bnd_name c = nm" by blast
          with assms \<open>b = ?b\<close> show ?thesis by (auto simp: wf_table_def)
        next
          case False
          then have "filter (\<lambda>b'. bnd_name b' = nm \<and> bnd_replier b') (bindings bus) = []"
            by (auto simp: filter_empty_conv)
          with \<open>b = ?b\<close> show ?thesis by simp
        qed
      qed
      ultimately show ?thesis by simp
    qed
  qed
qed

lemma length_filter_remove1:
  "length (filter P (remove1 x xs)) \<le> length (filter P xs)"
  by (induction xs) auto

lemma wf_table_unbind:
  assumes "wf_table (bindings bus)"
  shows "wf_table (bindings (snd (unbind bus ep nm rep guar)))"
proof -
  let ?b = "\<lparr>bnd_endpoint = ep, bnd_name = nm, bnd_replier = rep, bnd_guaranteed = guar\<rparr>"
  have "wf_table (remove1 ?b (bindings bus))"
    unfolding wf_table_def
  proof (intro conjI ballI)
    fix b assume "b \<in> set (remove1 ?b (bindings bus))"
    then have "b \<in> set (bindings bus)" using set_remove1_subset by fast
    then show "bnd_name b \<noteq> []" using assms by (simp add: wf_table_def)
  next
    fix b assume "b \<in> set (remove1 ?b (bindings bus))"
    then have "b \<in> set (bindings bus)" using set_remove1_subset by fast
    then have "length (filter (\<lambda>b'. bnd_name b' = bnd_name b \<and> bnd_replier b') (bindings bus)) \<le> 1"
      using assms by (simp add: wf_table_def)
    with length_filter_remove1[of "\<lambda>b'. bnd_name b' = bnd_name b \<and> bnd_replier b'" ?b "bindings bus"]
    show "length (filter (\<lambda>b'. bnd_name b' = bnd_name b \<and> bnd_replier b')
        (remove1 ?b (bindings bus))) \<le> 1"
      by linarith
  qed
  with assms show ?thesis by (simp add: unbind_def Let_def)
qed

lemma route_bindings: "bindings (snd (route bus sender msg)) = bindings bus"
  by (simp add: route_def Let_def split: sum.splits)

lemma wf_table_replier:
  assumes "wf_table bs"
  shows "length (filter (\<lambda>b. bnd_name b = nm \<and> bnd_replier b) bs) \<le> 1"
proof (cases "\<exists>c \<in> set bs. bnd_name c = nm")
  case True
  then obtain c where "c \<in> set bs" "bnd_name c = nm" by blast
  with assms show ?thesis by (auto simp: wf_table_def)
next
  case False
  then have "filter (\<lambda>b. bnd_name b = nm \<and> bnd_replier b) bs = []"
    by (auto simp: filter_empty_conv)
  then show ?thesis by simp
qed

text \<open>
  Claim C3. In every state of the binding table the Bus can reach (no Binding with an
  empty name, at most one replier Binding for each name: the state of a new Bus, kept by
  bind, unbind and route), a bind as replier to a name N fails with AddressInUse if and
  only if a replier Binding for exactly N exists; so at most one replier Binding for each
  name exists at any time. A bind as listener to a non-empty name is always accepted and
  adds a Binding, whatever the table holds already, duplicates included.
\<close>

theorem C3_single_replier:
  assumes "wf_table (bindings bus)"
  shows "(fst (bind bus ep nm True guar) = Inl AddressInUse \<longleftrightarrow>
            (\<exists>b \<in> set (bindings bus). bnd_name b = nm \<and> bnd_replier b))
       \<and> length (filter (\<lambda>b. bnd_name b = nm \<and> bnd_replier b) (bindings bus)) \<le> 1
       \<and> wf_table (bindings new_bus)
       \<and> wf_table (bindings (snd (bind bus ep nm rep guar)))
       \<and> wf_table (bindings (snd (unbind bus ep nm rep guar)))
       \<and> wf_table (bindings (snd (route bus sender msg)))
       \<and> (nm \<noteq> [] \<longrightarrow>
            bind bus ep nm False guar =
              (Inr (), bus\<lparr>bindings := bindings bus @
                 [\<lparr>bnd_endpoint = ep, bnd_name = nm, bnd_replier = False,
                   bnd_guaranteed = guar\<rparr>]\<rparr>))"
proof -
  have 1: "fst (bind bus ep nm True guar) = Inl AddressInUse \<longleftrightarrow>
            (\<exists>b \<in> set (bindings bus). bnd_name b = nm \<and> bnd_replier b)"
    using assms by (auto simp: bind_def wf_table_def)
  have 3: "wf_table (bindings new_bus)" by (simp add: new_bus_def wf_table_Nil)
  have 6: "wf_table (bindings (snd (route bus sender msg)))"
    using assms by (simp add: route_bindings)
  have 7: "nm \<noteq> [] \<longrightarrow>
            bind bus ep nm False guar =
              (Inr (), bus\<lparr>bindings := bindings bus @
                 [\<lparr>bnd_endpoint = ep, bnd_name = nm, bnd_replier = False,
                   bnd_guaranteed = guar\<rparr>]\<rparr>)"
    by (simp add: bind_def)
  from 1 wf_table_replier[OF assms] 3 wf_table_bind[OF assms] wf_table_unbind[OF assms] 6 7
  show ?thesis by blast
qed

text \<open>
  Scenario 1 of the spec: endpoint 1 is the replier of \<^verbatim>\<open>'$.Fred'\<close>; endpoint 2 is
  refused as a second replier of that name, not as the replier of \<^verbatim>\<open>'$.Jim'\<close>, and is
  accepted as a listener of \<^verbatim>\<open>'$.Fred'\<close>.
\<close>

theorem C3_single_replier_witness:
  "wf_table [\<lparr>bnd_endpoint = 1, bnd_name = ''$.Fred'', bnd_replier = True,
              bnd_guaranteed = False\<rparr>]
   \<and> fst (bind \<lparr>bindings = [\<lparr>bnd_endpoint = 1, bnd_name = ''$.Fred'', bnd_replier = True,
                                bnd_guaranteed = False\<rparr>],
                  last_id = 0, queues = (\<lambda>ep. [])\<rparr> 2 ''$.Fred'' True False) = Inl AddressInUse
   \<and> fst (bind \<lparr>bindings = [\<lparr>bnd_endpoint = 1, bnd_name = ''$.Fred'', bnd_replier = True,
                                bnd_guaranteed = False\<rparr>],
                  last_id = 0, queues = (\<lambda>ep. [])\<rparr> 2 ''$.Jim'' True False) \<noteq> Inl AddressInUse
   \<and> fst (bind \<lparr>bindings = [\<lparr>bnd_endpoint = 1, bnd_name = ''$.Fred'', bnd_replier = True,
                                bnd_guaranteed = False\<rparr>],
                  last_id = 0, queues = (\<lambda>ep. [])\<rparr> 2 ''$.Fred'' False False) = Inr ()"
proof -
  let ?bus = "\<lparr>bindings = [\<lparr>bnd_endpoint = 1, bnd_name = ''$.Fred'', bnd_replier = True,
                                bnd_guaranteed = False\<rparr>],
                  last_id = 0, queues = (\<lambda>ep. [])\<rparr> :: Bus"
  have w: "wf_table (bindings ?bus)" by (simp add: wf_table_def)
  from C3_single_replier[OF w, of 2 "''$.Fred''" False False 0 undefined]
    C3_single_replier[OF w, of 2 "''$.Jim''" False False 0 undefined] w
  show ?thesis by simp
qed


section \<open>Unbinding\<close>

lemma unbind_present:
  assumes "\<lparr>bnd_endpoint = ep, bnd_name = nm, bnd_replier = rep, bnd_guaranteed = guar\<rparr>
             \<in> set (bindings bus)"
  shows "unbind bus ep nm rep guar =
           (Inr (), bus\<lparr>bindings := remove1
              \<lparr>bnd_endpoint = ep, bnd_name = nm, bnd_replier = rep, bnd_guaranteed = guar\<rparr>
              (bindings bus)\<rparr>)"
  using assms by (simp add: unbind_def)

lemma unbind_absent:
  assumes "\<lparr>bnd_endpoint = ep, bnd_name = nm, bnd_replier = rep, bnd_guaranteed = guar\<rparr>
             \<notin> set (bindings bus)"
  shows "unbind bus ep nm rep guar = (Inl InvalidArgument, bus)"
  using assms by (simp add: unbind_def)

lemma remove1_first:
  assumes "x \<in> set xs"
  shows "\<exists>ys zs. xs = ys @ x # zs \<and> x \<notin> set ys \<and> remove1 x xs = ys @ zs"
proof -
  from split_list_first[OF assms] obtain ys zs where "xs = ys @ x # zs" "x \<notin> set ys"
    by blast
  then have "remove1 x xs = ys @ zs" by (simp add: remove1_append)
  with \<open>xs = ys @ x # zs\<close> \<open>x \<notin> set ys\<close> show ?thesis by blast
qed

lemma count_list_remove1:
  "count_list (remove1 x xs) y = (if x = y then count_list xs y - 1 else count_list xs y)"
  by (induction xs) auto

lemma count_list_pos: "0 < count_list xs x \<longleftrightarrow> x \<in> set xs"
  by (induction xs) auto

lemma count_unbind:
  "count_list (bindings (snd (unbind bus ep nm rep guar)))
      \<lparr>bnd_endpoint = ep, bnd_name = nm, bnd_replier = rep, bnd_guaranteed = guar\<rparr> =
   count_list (bindings bus)
      \<lparr>bnd_endpoint = ep, bnd_name = nm, bnd_replier = rep, bnd_guaranteed = guar\<rparr> - 1"
  by (simp add: unbind_def Let_def count_list_remove1 count_list_0_iff)

lemma count_unbinds:
  "count_list (bindings (((\<lambda>s. snd (unbind s ep nm rep guar)) ^^ j) bus))
      \<lparr>bnd_endpoint = ep, bnd_name = nm, bnd_replier = rep, bnd_guaranteed = guar\<rparr> =
   count_list (bindings bus)
      \<lparr>bnd_endpoint = ep, bnd_name = nm, bnd_replier = rep, bnd_guaranteed = guar\<rparr> - j"
  by (induction j) (simp_all add: count_unbind)

lemma unbind_ok_iff:
  "fst (unbind bus ep nm rep guar) = Inr () \<longleftrightarrow>
     0 < count_list (bindings bus)
          \<lparr>bnd_endpoint = ep, bnd_name = nm, bnd_replier = rep, bnd_guaranteed = guar\<rparr>"
  by (simp add: unbind_def Let_def count_list_pos)

lemma unbind_fail_iff:
  "fst (unbind bus ep nm rep guar) = Inl InvalidArgument \<longleftrightarrow>
     count_list (bindings bus)
          \<lparr>bnd_endpoint = ep, bnd_name = nm, bnd_replier = rep, bnd_guaranteed = guar\<rparr> = 0"
  by (simp add: unbind_def Let_def count_list_0_iff)

lemma count_binds:
  assumes "nm \<noteq> []"
  shows "count_list (bindings (((\<lambda>s. snd (bind s ep nm False guar)) ^^ n) bus))
      \<lparr>bnd_endpoint = ep, bnd_name = nm, bnd_replier = False, bnd_guaranteed = guar\<rparr> =
   count_list (bindings bus)
      \<lparr>bnd_endpoint = ep, bnd_name = nm, bnd_replier = False, bnd_guaranteed = guar\<rparr> + n"
  using assms by (induction n) (simp_all add: bind_def)

text \<open>
  Claim C5. For every binding table state, \<^verbatim>\<open>unbind(endpoint, name, is_replier,
  is_guaranteed)\<close> removes exactly one Binding equal in all four fields, the first in
  insertion order, and leaves every other Binding in place; if no Binding has these four
  fields it fails with InvalidArgument and leaves the table unchanged. Hence on a table
  holding n such Bindings exactly n such unbinds in a row succeed and the one after fails;
  and n identical listener binds to a non-empty name add n such Bindings.
\<close>

theorem C5_unbind:
  "(\<lparr>bnd_endpoint = ep, bnd_name = nm, bnd_replier = rep, bnd_guaranteed = guar\<rparr>
        \<in> set (bindings bus) \<longrightarrow>
      (\<exists>ys zs. bindings bus =
           ys @ \<lparr>bnd_endpoint = ep, bnd_name = nm, bnd_replier = rep, bnd_guaranteed = guar\<rparr> # zs
         \<and> \<lparr>bnd_endpoint = ep, bnd_name = nm, bnd_replier = rep, bnd_guaranteed = guar\<rparr>
             \<notin> set ys
         \<and> unbind bus ep nm rep guar = (Inr (), bus\<lparr>bindings := ys @ zs\<rparr>)))
   \<and> (\<lparr>bnd_endpoint = ep, bnd_name = nm, bnd_replier = rep, bnd_guaranteed = guar\<rparr>
        \<notin> set (bindings bus) \<longrightarrow>
      unbind bus ep nm rep guar = (Inl InvalidArgument, bus))
   \<and> (count_list (bindings bus)
        \<lparr>bnd_endpoint = ep, bnd_name = nm, bnd_replier = rep, bnd_guaranteed = guar\<rparr> = n \<longrightarrow>
      (\<forall>j < n. fst (unbind (((\<lambda>s. snd (unbind s ep nm rep guar)) ^^ j) bus) ep nm rep guar)
                 = Inr ())
      \<and> fst (unbind (((\<lambda>s. snd (unbind s ep nm rep guar)) ^^ n) bus) ep nm rep guar)
           = Inl InvalidArgument)
   \<and> (nm \<noteq> [] \<longrightarrow>
      count_list (bindings (((\<lambda>s. snd (bind s ep nm False guar)) ^^ n) bus))
        \<lparr>bnd_endpoint = ep, bnd_name = nm, bnd_replier = False, bnd_guaranteed = guar\<rparr> =
      count_list (bindings bus)
        \<lparr>bnd_endpoint = ep, bnd_name = nm, bnd_replier = False, bnd_guaranteed = guar\<rparr> + n)"
proof -
  let ?b = "\<lparr>bnd_endpoint = ep, bnd_name = nm, bnd_replier = rep, bnd_guaranteed = guar\<rparr>"
  have 1: "?b \<in> set (bindings bus) \<longrightarrow>
      (\<exists>ys zs. bindings bus = ys @ ?b # zs \<and> ?b \<notin> set ys
         \<and> unbind bus ep nm rep guar = (Inr (), bus\<lparr>bindings := ys @ zs\<rparr>))"
  proof
    assume b: "?b \<in> set (bindings bus)"
    from remove1_first[OF b] obtain ys zs where
      "bindings bus = ys @ ?b # zs" "?b \<notin> set ys" "remove1 ?b (bindings bus) = ys @ zs"
      by blast
    with unbind_present[OF b] show "\<exists>ys zs. bindings bus = ys @ ?b # zs \<and> ?b \<notin> set ys
         \<and> unbind bus ep nm rep guar = (Inr (), bus\<lparr>bindings := ys @ zs\<rparr>)"
      by auto
  qed
  have 2: "?b \<notin> set (bindings bus) \<longrightarrow> unbind bus ep nm rep guar = (Inl InvalidArgument, bus)"
    using unbind_absent by blast
  have 3: "count_list (bindings bus) ?b = n \<longrightarrow>
      (\<forall>j < n. fst (unbind (((\<lambda>s. snd (unbind s ep nm rep guar)) ^^ j) bus) ep nm rep guar)
                 = Inr ())
      \<and> fst (unbind (((\<lambda>s. snd (unbind s ep nm rep guar)) ^^ n) bus) ep nm rep guar)
           = Inl InvalidArgument"
    by (simp only: unbind_ok_iff unbind_fail_iff count_unbinds) auto
  from 1 2 3 count_binds show ?thesis by blast
qed

text \<open>
  Scenario 4 of the spec, \<^verbatim>\<open>test_many_bind_3\<close> of \<^verbatim>\<open>kbus.py\<close>: endpoint 1 has bound
  \<^verbatim>\<open>'$.Fred'\<close> once as replier and twice as listener. A listener unbind takes out one
  listener Binding; a third listener unbind fails, and so does the unbind of a name that
  was never bound.
\<close>

theorem C5_unbind_witness:
  "(\<exists>ys zs.
       [\<lparr>bnd_endpoint = 1, bnd_name = ''$.Fred'', bnd_replier = True, bnd_guaranteed = False\<rparr>,
        \<lparr>bnd_endpoint = 1, bnd_name = ''$.Fred'', bnd_replier = False, bnd_guaranteed = False\<rparr>,
        \<lparr>bnd_endpoint = 1, bnd_name = ''$.Fred'', bnd_replier = False, bnd_guaranteed = False\<rparr>]
         = ys @ \<lparr>bnd_endpoint = 1, bnd_name = ''$.Fred'', bnd_replier = False,
                  bnd_guaranteed = False\<rparr> # zs
       \<and> \<lparr>bnd_endpoint = 1, bnd_name = ''$.Fred'', bnd_replier = False,
            bnd_guaranteed = False\<rparr> \<notin> set ys
       \<and> unbind
           \<lparr>bindings =
             [\<lparr>bnd_endpoint = 1, bnd_name = ''$.Fred'', bnd_replier = True, bnd_guaranteed = False\<rparr>,
              \<lparr>bnd_endpoint = 1, bnd_name = ''$.Fred'', bnd_replier = False, bnd_guaranteed = False\<rparr>,
              \<lparr>bnd_endpoint = 1, bnd_name = ''$.Fred'', bnd_replier = False, bnd_guaranteed = False\<rparr>],
            last_id = 0, queues = (\<lambda>ep. [])\<rparr> 1 ''$.Fred'' False False =
         (Inr (), \<lparr>bindings = ys @ zs, last_id = 0, queues = (\<lambda>ep. [])\<rparr>))
   \<and> fst (unbind
        \<lparr>bindings =
          [\<lparr>bnd_endpoint = 1, bnd_name = ''$.Fred'', bnd_replier = True, bnd_guaranteed = False\<rparr>,
           \<lparr>bnd_endpoint = 1, bnd_name = ''$.Fred'', bnd_replier = False, bnd_guaranteed = False\<rparr>,
           \<lparr>bnd_endpoint = 1, bnd_name = ''$.Fred'', bnd_replier = False, bnd_guaranteed = False\<rparr>],
         last_id = 0, queues = (\<lambda>ep. [])\<rparr> 1 ''$.JimBob'' False False) = Inl InvalidArgument
   \<and> fst (unbind
        (((\<lambda>s. snd (unbind s 1 ''$.Fred'' False False)) ^^ 2)
          \<lparr>bindings =
            [\<lparr>bnd_endpoint = 1, bnd_name = ''$.Fred'', bnd_replier = True, bnd_guaranteed = False\<rparr>,
             \<lparr>bnd_endpoint = 1, bnd_name = ''$.Fred'', bnd_replier = False, bnd_guaranteed = False\<rparr>,
             \<lparr>bnd_endpoint = 1, bnd_name = ''$.Fred'', bnd_replier = False, bnd_guaranteed = False\<rparr>],
           last_id = 0, queues = (\<lambda>ep. [])\<rparr>)
        1 ''$.Fred'' False False) = Inl InvalidArgument"
proof -
  let ?R = "\<lparr>bnd_endpoint = 1, bnd_name = ''$.Fred'', bnd_replier = True, bnd_guaranteed = False\<rparr>"
  let ?L = "\<lparr>bnd_endpoint = 1, bnd_name = ''$.Fred'', bnd_replier = False, bnd_guaranteed = False\<rparr>"
  let ?bus = "\<lparr>bindings = [?R, ?L, ?L], last_id = 0, queues = (\<lambda>ep. [])\<rparr> :: Bus"
  have a: "?L \<in> set (bindings ?bus)" by simp
  have b: "\<lparr>bnd_endpoint = 1, bnd_name = ''$.JimBob'', bnd_replier = False,
            bnd_guaranteed = False\<rparr> \<notin> set (bindings ?bus)" by simp
  have c: "count_list (bindings ?bus) ?L = 2" by simp
  from C5_unbind[of 1 "''$.Fred''" False False ?bus 2] a c
    C5_unbind[of 1 "''$.JimBob''" False False ?bus 0] b
  show ?thesis by simp
qed


section \<open>Fan-out and order of delivery\<close>

lemma match_listeners_empty: "match_listeners bs nm = {} \<longleftrightarrow> matching bs nm = []"
  by (simp add: match_listeners_def)








end
